theory Spec2Isabelle
  imports Main
begin

section \<open>Values and records of the transaction manager\<close>

text \<open>
  The development follows \<^verbatim>\<open>src/lib/modules/transactionManager.js\<close>,
  \<^verbatim>\<open>src/lib/interface/interface.js\<close> and the \<^verbatim>\<open>FixedLengthArray\<close> of
  \<^verbatim>\<open>src/lib/utils.js\<close>. JavaScript numbers that hold nonces, ids, counters and
  timestamps are natural numbers below \<open>2^53\<close>; a property that is \<^verbatim>\<open>undefined\<close>,
  \<^verbatim>\<open>null\<close> or was deleted is \<open>None\<close>.
\<close>

type_synonym address = string
type_synonym ref = nat

datatype status = pending | submitted | confirmed | failed

datatype txType = call | send

datatype error = TypeError | Error string

text \<open>\<^verbatim>\<open>a || b\<close> where \<open>a\<close> is a number, \<^verbatim>\<open>undefined\<close> or \<^verbatim>\<open>null\<close>: \<open>0\<close> is falsy.\<close>

definition or_else :: "nat option \<Rightarrow> nat \<Rightarrow> nat" where
  "or_else a b = (case a of None \<Rightarrow> b | Some n \<Rightarrow> if n \<noteq> 0 then n else b)"

text \<open>\<^verbatim>\<open>message.includes(sub)\<close> on strings.\<close>

fun str_includes :: "string \<Rightarrow> string \<Rightarrow> bool" where
  "str_includes [] sub = (sub = [])"
| "str_includes (c # cs) sub = (take (length sub) (c # cs) = sub \<or> str_includes cs sub)"

text \<open>
  The results of \<^verbatim>\<open>_getHighestNonce\<close> range over numbers, \<^verbatim>\<open>null\<close>,
  \<^verbatim>\<open>undefined\<close> and \<^verbatim>\<open>NaN\<close>; \<^verbatim>\<open>Math.max\<close> converts its arguments to numbers.
\<close>

datatype jsnum = Undefined | Null | NaN | Num nat

fun ToNumber :: "jsnum \<Rightarrow> nat option" where
  "ToNumber (Num n) = Some n"
| "ToNumber Null = Some 0"
| "ToNumber Undefined = None"
| "ToNumber NaN = None"

definition Math_max :: "jsnum \<Rightarrow> jsnum \<Rightarrow> jsnum" where
  "Math_max a b = (case (ToNumber a, ToNumber b) of
       (Some x, Some y) \<Rightarrow> Num (max x y)
     | _ \<Rightarrow> NaN)"

fun isInteger :: "jsnum \<Rightarrow> bool" where
  "isInteger (Num n) = True"
| "isInteger _ = False"

definition of_nonce :: "nat option \<Rightarrow> jsnum" where
  "of_nonce v = (case v of None \<Rightarrow> Undefined | Some n \<Rightarrow> Num n)"

text \<open>\<^verbatim>\<open>xs.reduce(f)\<close> without an initial value, on a non-empty array.\<close>

fun reduce :: "('a \<Rightarrow> 'a \<Rightarrow> 'a) \<Rightarrow> 'a list \<Rightarrow> 'a option" where
  "reduce f [] = None"
| "reduce f (x # xs) = Some (foldl f x xs)"

text \<open>The options bag of a call (\<^verbatim>\<open>txMeta.options\<close>).\<close>

record options =
  options_from :: address
  options_gas :: "nat option"
  options_gasPrice :: "nat option"
  options_nonce :: "nat option"
  options_value :: "nat option"
  options_data :: "string option"

text \<open>
  A \<^verbatim>\<open>TransactionObject\<close>. The keys written by the constructor in \<^verbatim>\<open>getTxMeta\<close>
  (\<^verbatim>\<open>from, to, method, methodArgs, options, txType\<close>) are always present; the others
  are present once they were assigned. The derived \<^verbatim>\<open>duration\<close> and the gas totals
  kept as strings are left out.
\<close>

record txMeta =
  tx_id :: "nat option"
  tx_from :: address
  tx_to :: "address option"
  tx_method :: string
  methodArgs :: "string list"
  options :: options
  txType :: txType
  time :: "nat option"
  status :: "status option"
  lastUpdate :: "nat option"
  nonce :: "nat option"
  txHash :: "string option"
  data :: "string option"
  blockNumber :: "nat option"
  gasUsed :: "nat option"

definition new_TransactionObject ::
  "address \<Rightarrow> address option \<Rightarrow> string \<Rightarrow> string list \<Rightarrow> options \<Rightarrow> txType \<Rightarrow> txMeta" where
  "new_TransactionObject f t m args opts ty =
     \<lparr>tx_id = None, tx_from = f, tx_to = t, tx_method = m, methodArgs = args, options = opts,
      txType = ty, time = None, status = None, lastUpdate = None, nonce = None,
      txHash = None, data = None, blockNumber = None, gasUsed = None\<rparr>"

section \<open>FixedLengthArray\<close>

text \<open>
  \<^verbatim>\<open>FixedLengthArray(lengthLimit, unique)\<close>: an array with the two closure variables.
  A \<open>lengthLimit\<close> of \<open>0\<close> stands for a falsy limit (\<^verbatim>\<open>undefined\<close> or \<open>0\<close>).
\<close>

record 'a FixedLengthArray =
  lengthLimit :: nat
  unique :: bool
  items :: "'a list"

definition new_FixedLengthArray :: "nat \<Rightarrow> bool \<Rightarrow> 'a FixedLengthArray" where
  "new_FixedLengthArray limit uniq = \<lparr>lengthLimit = limit, unique = uniq, items = []\<rparr>"

definition has :: "'a FixedLengthArray \<Rightarrow> 'a \<Rightarrow> bool" where
  "has a x = (x \<in> set (items a))"

text \<open>\<^verbatim>\<open>[...new Set(xs)]\<close>: the first occurrence of every element, in order.\<close>

fun from_Set :: "'a list \<Rightarrow> 'a list" where
  "from_Set [] = []"
| "from_Set (x # xs) = x # from_Set (filter (\<lambda>y. y \<noteq> x) xs)"

text \<open>\<^verbatim>\<open>_truncate\<close>: one \<^verbatim>\<open>shift()\<close> per argument; \<^verbatim>\<open>shift\<close> on an empty array does nothing.\<close>

definition truncate_fla :: "'a FixedLengthArray \<Rightarrow> 'a list \<Rightarrow> 'a FixedLengthArray" where
  "truncate_fla a args =
     (if lengthLimit a \<noteq> 0 \<and> length (items a) \<ge> lengthLimit a \<and> length args > 0
      then a\<lparr>items := drop (length args) (items a)\<rparr>
      else a)"

definition add :: "'a FixedLengthArray \<Rightarrow> 'a list \<Rightarrow> 'a FixedLengthArray" where
  "add a args =
     (let args' = from_Set (filter (\<lambda>item. item \<notin> set (items a)) args);
          a' = truncate_fla a args'
      in a'\<lparr>items := items a' @ args'\<rparr>)"

definition push :: "'a FixedLengthArray \<Rightarrow> 'a list \<Rightarrow> 'a FixedLengthArray" where
  "push a args =
     (if unique a then add a args
      else (let a' = truncate_fla a args in a'\<lparr>items := items a' @ args\<rparr>))"

section \<open>The transaction manager\<close>

text \<open>
  \<open>heap\<close> holds the \<^verbatim>\<open>TransactionObject\<close>s by reference: \<^verbatim>\<open>this.tx\<close> is an array of
  references, and a caller that passes \<^verbatim>\<open>txMeta\<close> to \<^verbatim>\<open>addTx\<close> keeps the very object
  that \<^verbatim>\<open>push\<close> stored. \<open>lockMap\<close> gives, for every address that has a mutex, whether
  the mutex is held.
\<close>

record TransactionManager =
  heap :: "ref \<Rightarrow> txMeta"
  tx :: "ref list"
  totalGasUsed :: nat
  retries :: nat
  lockMap :: "address \<rightharpoonup> bool"
  nonceInUse :: "address \<rightharpoonup> nat option FixedLengthArray"
  idCounter :: nat

definition MAX_SAFE_INTEGER :: nat where
  "MAX_SAFE_INTEGER = 9007199254740991"

text \<open>The constructor; \<open>c\<close> is the value of \<^verbatim>\<open>Math.round(Math.random() * Number.MAX_SAFE_INTEGER)\<close>.\<close>

definition new_TransactionManager :: "(ref \<Rightarrow> txMeta) \<Rightarrow> nat \<Rightarrow> TransactionManager" where
  "new_TransactionManager h c =
     \<lparr>heap = h, tx = [], totalGasUsed = 0, retries = 0, lockMap = Map.empty,
      nonceInUse = Map.empty, idCounter = c\<rparr>"

subsection \<open>Filters\<close>

text \<open>A key of a filter object together with the value asked for.\<close>

datatype metaData = Status status | From address | Id "nat option"

fun matches :: "txMeta \<Rightarrow> metaData \<Rightarrow> bool" where
  "matches m (Status v) = (status m = Some v)"
| "matches m (From v) = (tx_from m = v)"
| "matches m (Id v) = (tx_id m = v)"

text \<open>\<^verbatim>\<open>getTxsByMetaData(key, value, txList = this.tx)\<close>: \<open>None\<close> is the omitted list.\<close>

definition getTxsByMetaData ::
  "TransactionManager \<Rightarrow> metaData \<Rightarrow> ref list option \<Rightarrow> ref list" where
  "getTxsByMetaData s kv txList =
     filter (\<lambda>r. matches (heap s r) kv) (case txList of None \<Rightarrow> tx s | Some l \<Rightarrow> l)"

definition getFilteredTxList ::
  "TransactionManager \<Rightarrow> metaData list \<Rightarrow> ref list option \<Rightarrow> ref list option" where
  "getFilteredTxList s opts initialList =
     fold (\<lambda>kv filteredTxList. Some (getTxsByMetaData s kv filteredTxList)) opts initialList"

text \<open>
  \<^verbatim>\<open>_filterTxByStatus(address, status)\<close>; the address is \<open>None\<close> when the caller passes
  none, and an empty string is falsy. The filter always has the key \<^verbatim>\<open>status\<close>, so the
  list is never \<^verbatim>\<open>undefined\<close>.
\<close>

definition filterTxByStatus :: "TransactionManager \<Rightarrow> address option \<Rightarrow> status \<Rightarrow> ref list" where
  "filterTxByStatus s addr st =
     (let flt = (case addr of
                   None \<Rightarrow> [Status st]
                 | Some a \<Rightarrow> if a \<noteq> [] then [Status st, From a] else [Status st])
      in case getFilteredTxList s flt None of None \<Rightarrow> [] | Some l \<Rightarrow> l)"

definition getFailedTransactions :: "TransactionManager \<Rightarrow> address option \<Rightarrow> ref list" where
  "getFailedTransactions s addr = filterTxByStatus s addr failed"

definition getConfirmedTransactions :: "TransactionManager \<Rightarrow> address option \<Rightarrow> ref list" where
  "getConfirmedTransactions s addr = filterTxByStatus s addr confirmed"

definition getPendingTransactions :: "TransactionManager \<Rightarrow> address option \<Rightarrow> ref list" where
  "getPendingTransactions s addr = filterTxByStatus s addr pending"

definition getSubmittedTransactions :: "TransactionManager \<Rightarrow> address option \<Rightarrow> ref list" where
  "getSubmittedTransactions s addr = filterTxByStatus s addr submitted"

subsection \<open>Nonce selection\<close>

definition getHighestNonce :: "TransactionManager \<Rightarrow> ref list \<Rightarrow> jsnum" where
  "getHighestNonce s txList =
     (let nonces = map (\<lambda>r. of_nonce (nonce (heap s r))) txList
      in case reduce Math_max nonces of None \<Rightarrow> Null | Some v \<Rightarrow> v)"

definition getHighestLocallyConfirmed :: "TransactionManager \<Rightarrow> address \<Rightarrow> nat" where
  "getHighestLocallyConfirmed s addr =
     (let confirmedTransactions = getConfirmedTransactions s (Some addr);
          highest = getHighestNonce s confirmedTransactions
      in case highest of Num n \<Rightarrow> n + 1 | _ \<Rightarrow> 0)"

text \<open>
  The largest number in a list of optional numbers: the bound that makes the loop of
  \<^verbatim>\<open>_getHighestContinuousFrom\<close> terminate.
\<close>

fun top_nonce :: "nat option list \<Rightarrow> nat" where
  "top_nonce [] = 0"
| "top_nonce (None # xs) = top_nonce xs"
| "top_nonce (Some n # xs) = max n (top_nonce xs)"

text \<open>
  The loop \<^verbatim>\<open>while (nonces.includes(highest) || (address && inUse && inUse.includes(highest))) highest++\<close>.
\<close>

function continuousFrom ::
  "nat option list \<Rightarrow> address \<Rightarrow> nat option FixedLengthArray option \<Rightarrow> nat \<Rightarrow> nat" where
  "continuousFrom nonces addr inUse highest =
     (if Some highest \<in> set nonces \<or>
         (addr \<noteq> [] \<and> (case inUse of None \<Rightarrow> False | Some a \<Rightarrow> Some highest \<in> set (items a)))
      then continuousFrom nonces addr inUse (highest + 1)
      else highest)"
  by pat_completeness auto
termination
proof -
  have top_ge: "n \<le> top_nonce xs" if "Some n \<in> set xs" for n xs
    using that by (induction xs rule: top_nonce.induct) auto
  show ?thesis
    by (relation "measure (\<lambda>(nonces, addr, inUse, highest).
          Suc (max (top_nonce nonces) (case inUse of None \<Rightarrow> 0 | Some a \<Rightarrow> top_nonce (items a))) - highest)")
       (auto split: option.splits dest: top_ge)
qed

declare continuousFrom.simps [simp del]

definition getHighestContinuousFrom ::
  "(address \<Rightarrow> address) \<Rightarrow> TransactionManager \<Rightarrow> ref list \<Rightarrow> nat \<Rightarrow> address \<Rightarrow> nat" where
  "getHighestContinuousFrom toChecksum s txList startPoint addr =
     (let addr' = (if addr \<noteq> [] then toChecksum addr else addr);
          nonces = map (\<lambda>r. nonce (heap s r)) txList;
          inUse = nonceInUse s addr'
      in continuousFrom nonces addr' inUse startPoint)"

text \<open>
  The body of \<^verbatim>\<open>getNonce\<close> between the two network queries and the \<^verbatim>\<open>return\<close>,
  run while the lock is held. \<open>addr\<close> is the local \<^verbatim>\<open>address\<close> after
  \<^verbatim>\<open>address = toChecksum(address)\<close>, \<open>nextNetworkNonce\<close> the answer of
  \<^verbatim>\<open>getTransactionCount\<close>, and \<open>toChecksum\<close> the function of that name in
  \<^verbatim>\<open>utils\<close> (it wraps \<^verbatim>\<open>web3-utils\<close>, which is not part of the repository).
\<close>

definition getNonce_body ::
  "(address \<Rightarrow> address) \<Rightarrow> TransactionManager \<Rightarrow> address \<Rightarrow> nat \<Rightarrow> nat" where
  "getNonce_body toChecksum s addr nextNetworkNonce =
     (let highestLocallyConfirmed = getHighestLocallyConfirmed s addr;
          highestSuggested = max nextNetworkNonce highestLocallyConfirmed;
          submittedTxs = getSubmittedTransactions s (Some addr);
          pendingTxs = filter (\<lambda>r. case nonce (heap s r) of None \<Rightarrow> False | Some n \<Rightarrow> n > 0)
                         (getPendingTransactions s (Some addr));
          localNonceResult =
            or_else (Some (getHighestContinuousFrom toChecksum s (submittedTxs @ pendingTxs)
                             highestSuggested addr)) 0
      in max nextNetworkNonce localNonceResult)"

text \<open>The value \<^verbatim>\<open>nextNonce\<close> that \<^verbatim>\<open>getNonce(address, w3)\<close> returns.\<close>

definition getNonce ::
  "(address \<Rightarrow> address) \<Rightarrow> TransactionManager \<Rightarrow> address \<Rightarrow> nat \<Rightarrow> nat" where
  "getNonce toChecksum s addr0 nextNetworkNonce =
     getNonce_body toChecksum s (toChecksum addr0) nextNetworkNonce"

subsection \<open>Error classification\<close>

definition checkError ::
  "(address \<Rightarrow> address) \<Rightarrow> TransactionManager \<Rightarrow> string \<Rightarrow> address \<Rightarrow> ref \<Rightarrow> TransactionManager" where
  "checkError toChecksum s message addr0 r =
     (let addr = toChecksum addr0;
          n = nonce (heap s r)
      in if str_includes message ''nonce too low'' \<or>
            str_includes message ''Transaction was not mined within'' \<or>
            str_includes message ''known transaction'' \<or>
            str_includes message ''replacement transaction underpriced''
         then (let arr = (case nonceInUse s addr of
                            None \<Rightarrow> new_FixedLengthArray 200 True
                          | Some a \<Rightarrow> a)
               in s\<lparr>nonceInUse := (nonceInUse s)(addr \<mapsto> push arr [n])\<rparr>)
         else s)"

text \<open>The four messages that \<^verbatim>\<open>_checkError\<close> looks for.\<close>

definition isNonceError :: "string \<Rightarrow> bool" where
  "isNonceError message =
     (str_includes message ''nonce too low'' \<or>
      str_includes message ''Transaction was not mined within'' \<or>
      str_includes message ''known transaction'' \<or>
      str_includes message ''replacement transaction underpriced'')"

text \<open>Every exclusion set was made by \<^verbatim>\<open>new FixedLengthArray(200, true)\<close> and filled by \<^verbatim>\<open>push\<close>.\<close>

definition nonceInUse_ok :: "TransactionManager \<Rightarrow> bool" where
  "nonceInUse_ok s =
     (\<forall>a arr. nonceInUse s a = Some arr \<longrightarrow>
        lengthLimit arr = 200 \<and> unique arr \<and> distinct (items arr) \<and> length (items arr) \<le> 200)"

subsection \<open>Records: addTx and updateTx\<close>

text \<open>\<^verbatim>\<open>xs.findIndex(p)\<close>; \<open>None\<close> is the result \<open>-1\<close>.\<close>

fun findIndex :: "('a \<Rightarrow> bool) \<Rightarrow> 'a list \<Rightarrow> nat option" where
  "findIndex p [] = None"
| "findIndex p (x # xs) = (if p x then Some 0 else map_option Suc (findIndex p xs))"

text \<open>
  \<^verbatim>\<open>Object.keys(txMeta).forEach(key => (target[key] = txMeta[key]))\<close>: every key that is
  present in \<open>m\<close> overwrites the one of the target. The options are copied as a value,
  where the code copies the reference to the one options object; the two differ only
  when the target is another object than \<open>m\<close> and the options are written to afterwards.
\<close>

definition keep :: "'a option \<Rightarrow> 'a option \<Rightarrow> 'a option" where
  "keep new old = (case new of None \<Rightarrow> old | Some v \<Rightarrow> Some v)"

definition merge_keys :: "txMeta \<Rightarrow> txMeta \<Rightarrow> txMeta" where
  "merge_keys target m =
     \<lparr>tx_id = keep (tx_id m) (tx_id target), tx_from = tx_from m, tx_to = tx_to m,
      tx_method = tx_method m, methodArgs = methodArgs m, options = options m,
      txType = txType m, time = keep (time m) (time target),
      status = keep (status m) (status target),
      lastUpdate = keep (lastUpdate m) (lastUpdate target),
      nonce = keep (nonce m) (nonce target), txHash = keep (txHash m) (txHash target),
      data = keep (data m) (data target),
      blockNumber = keep (blockNumber m) (blockNumber target),
      gasUsed = keep (gasUsed m) (gasUsed target)\<rparr>"

text \<open>
  A function of the manager that may throw returns the error, if any, and the manager as
  the call left it: the assignments made before a \<^verbatim>\<open>throw\<close> stay.
  \<^verbatim>\<open>this.tx[-1][key] = \<dots>\<close> throws a \<^verbatim>\<open>TypeError\<close>.
\<close>

definition updateTx ::
  "TransactionManager \<Rightarrow> ref \<Rightarrow> status \<Rightarrow> nat \<Rightarrow> error option \<times> TransactionManager" where
  "updateTx s r st now =
     (let s1 = s\<lparr>heap := (heap s)(r := (heap s r)\<lparr>status := Some st, lastUpdate := Some now\<rparr>)\<rparr>;
          txMeta = heap s1 r
      in case findIndex (\<lambda>t. tx_id (heap s1 t) = tx_id txMeta) (tx s1) of
           None \<Rightarrow> (Some TypeError, s1)
         | Some index \<Rightarrow>
             (None, s1\<lparr>heap := (heap s1)(tx s1 ! index := merge_keys (heap s1 (tx s1 ! index)) txMeta)\<rparr>))"

definition createRandomId :: "TransactionManager \<Rightarrow> nat \<times> TransactionManager" where
  "createRandomId s =
     (let c = idCounter s mod MAX_SAFE_INTEGER in (c, s\<lparr>idCounter := c + 1\<rparr>))"

text \<open>
  \<^verbatim>\<open>addTx(txMeta)\<close>; \<open>now\<close> is \<^verbatim>\<open>new Date().getTime()\<close>. An \<^verbatim>\<open>id\<close> that is
  \<^verbatim>\<open>undefined\<close> or \<open>0\<close> is falsy. The list \<^verbatim>\<open>txs\<close> is an array, which is truthy
  also when it is empty.
\<close>

definition addTx ::
  "TransactionManager \<Rightarrow> ref \<Rightarrow> nat \<Rightarrow> error option \<times> TransactionManager" where
  "addTx s r now =
     (let s1 = s\<lparr>heap := (heap s)(r := (heap s r)\<lparr>txHash := None, data := None\<rparr>)\<rparr>;
          i = tx_id (heap s1 r);
          s2 = s1\<lparr>heap := (heap s1)(r := (heap s1 r)\<lparr>time := Some (or_else (time (heap s1 r)) now)\<rparr>)\<rparr>
      in if i \<noteq> None \<and> i \<noteq> Some 0
         then (case getFilteredTxList s2 [Id i] None of
                 None \<Rightarrow> (None, s2)
               | Some txs \<Rightarrow> updateTx s2 r pending now)
         else (let (newId, s3) = createRandomId s2
               in (None, s3\<lparr>heap := (heap s3)(r := (heap s3 r)\<lparr>tx_id := Some newId\<rparr>),
                             tx := tx s3 @ [r]\<rparr>)))"

subsection \<open>The per-address mutex\<close>

text \<open>
  \<^verbatim>\<open>_lookupMutex\<close> creates the mutex of an address on first use. \<^verbatim>\<open>Mutex\<close> comes
  from the package \<^verbatim>\<open>await-semaphore\<close>: \<^verbatim>\<open>acquire()\<close> resolves, with the function
  that releases the mutex, once the mutex is free.
\<close>

definition lookupMutex :: "TransactionManager \<Rightarrow> address \<Rightarrow> TransactionManager" where
  "lookupMutex s lockId =
     (case lockMap s lockId of
        None \<Rightarrow> s\<lparr>lockMap := (lockMap s)(lockId \<mapsto> False)\<rparr>
      | Some held \<Rightarrow> s)"

definition acquire :: "TransactionManager \<Rightarrow> address \<Rightarrow> TransactionManager" where
  "acquire s lockId = s\<lparr>lockMap := (lockMap s)(lockId \<mapsto> True)\<rparr>"

definition releaseNonceLock :: "TransactionManager \<Rightarrow> address \<Rightarrow> TransactionManager" where
  "releaseNonceLock s lockId = s\<lparr>lockMap := (lockMap s)(lockId \<mapsto> False)\<rparr>"

subsection \<open>The queue governor\<close>

definition awaitLimit :: nat where
  "awaitLimit = 100"

definition awaitTime :: nat where
  "awaitTime = 60"

definition awaiting :: "TransactionManager \<Rightarrow> nat" where
  "awaiting s = length (getSubmittedTransactions s None)"

text \<open>
  \<^verbatim>\<open>_waitQueue\<close>. Between two checks the function sleeps, and other submissions run:
  \<open>obs k\<close> is the manager as the check number \<open>k\<close> finds it. The result is the number of
  the check that let the caller through and the milliseconds slept; \<open>None\<close> is a call
  that never returns.
\<close>

partial_function (option) waitQueue ::
  "(nat \<Rightarrow> TransactionManager) \<Rightarrow> nat \<Rightarrow> nat \<Rightarrow> (nat \<times> nat) option" where
  "waitQueue obs k slept =
     (if awaiting (obs k) \<ge> awaitLimit
      then waitQueue obs (k + 1) (slept + awaitTime * 1000)
      else Some (k, slept))"

declare waitQueue.simps [code]

subsection \<open>submitTx\<close>

text \<open>
  What the node and the clock answer during one call of \<^verbatim>\<open>submitTx\<close>: the time, the
  transaction count (or the message of a failed \<^verbatim>\<open>getBlock\<close> or
  \<^verbatim>\<open>getTransactionCount\<close>), the events that \<^verbatim>\<open>send\<close> emits, the message of
  the error that \<^verbatim>\<open>send\<close> rejects with (\<open>None\<close> if it resolves), and the answers of
  the \<^verbatim>\<open>verify\<close> predicate to the two calls that the retry loop may make.
\<close>

datatype sendEvent = TransactionHash string | Receipt nat "nat option" | ErrorEvent string

record attempt =
  clock :: nat
  network :: "string + nat"
  events :: "sendEvent list"
  settled :: "string option"
  verify1 :: bool
  verify2 :: bool

datatype 'a outcome = Returned 'a | Threw error

text \<open>
  \<^verbatim>\<open>_calculateGasExpenses\<close> and \<^verbatim>\<open>updateStat\<close>, without the fields of the
  interface object and the floating-point total \<^verbatim>\<open>totalEthSpent\<close>.
\<close>

definition calculateGasExpenses :: "TransactionManager \<Rightarrow> ref \<Rightarrow> nat option \<Rightarrow> TransactionManager" where
  "calculateGasExpenses s r g =
     (let used = (case g of None \<Rightarrow> 0 | Some n \<Rightarrow> n)
      in s\<lparr>heap := (heap s)(r := (heap s r)\<lparr>gasUsed := Some used\<rparr>),
            totalGasUsed := totalGasUsed s + used\<rparr>)"

text \<open>The three handlers that \<^verbatim>\<open>submitTx\<close> registers on the \<^verbatim>\<open>send\<close>.\<close>

fun handler :: "(address \<Rightarrow> address) \<Rightarrow> TransactionManager \<Rightarrow> ref \<Rightarrow> sendEvent \<Rightarrow> TransactionManager" where
  "handler toChecksum s r (TransactionHash h) =
     s\<lparr>heap := (heap s)(r := (heap s r)\<lparr>txHash := Some h\<rparr>)\<rparr>"
| "handler toChecksum s r (Receipt b g) =
     calculateGasExpenses (s\<lparr>heap := (heap s)(r := (heap s r)\<lparr>blockNumber := Some b\<rparr>)\<rparr>) r g"
| "handler toChecksum s r (ErrorEvent message) =
     checkError toChecksum s message (options_from (options (heap s r))) r"

definition finalizeTx ::
  "TransactionManager \<Rightarrow> ref \<Rightarrow> string option \<Rightarrow> nat \<Rightarrow> error option \<times> TransactionManager" where
  "finalizeTx s r err now = updateTx s r (if err \<noteq> None then failed else confirmed) now"

text \<open>
  Lines 158 to 162 of \<^verbatim>\<open>submitTx\<close>: the nonce is fixed, the record becomes
  \<open>submitted\<close> and the lock is released. \<open>lockId\<close> is the address under which
  \<^verbatim>\<open>getNonce\<close> took the lock. If \<^verbatim>\<open>updateTx\<close> throws, the lock stays held.
\<close>

definition claimNonce ::
  "TransactionManager \<Rightarrow> ref \<Rightarrow> nat \<Rightarrow> address \<Rightarrow> nat \<Rightarrow> error option \<times> TransactionManager" where
  "claimNonce s r nextNonce lockId now =
     (let opts = options (heap s r);
          n = or_else (options_nonce opts) nextNonce;
          s1 = s\<lparr>heap := (heap s)(r := (heap s r)\<lparr>options := opts\<lparr>options_nonce := Some n\<rparr>,
                                                   nonce := Some n\<rparr>)\<rparr>
      in case updateTx s1 r submitted now of
           (Some e, s2) \<Rightarrow> (Some e, s2)
         | (None, s2) \<Rightarrow> (None, releaseNonceLock s2 lockId))"

text \<open>
  \<^verbatim>\<open>submitTx\<close> of a \<^verbatim>\<open>send\<close> up to the return of \<^verbatim>\<open>getNonce\<close> (lines 152 to
  154), when no other call runs in between: \<^verbatim>\<open>addTx\<close>, the lock, the two queries,
  the computation of \<^verbatim>\<open>nextNonce\<close>. A mutex that is held is never released by
  anybody else here, so the call does not return (\<open>None\<close>).
\<close>

definition submitTx_getNonce ::
  "(address \<Rightarrow> address) \<Rightarrow> TransactionManager \<Rightarrow> ref \<Rightarrow> attempt
     \<Rightarrow> ((nat \<times> address) outcome \<times> TransactionManager) option" where
  "submitTx_getNonce toChecksum s r a =
     (case addTx s r (clock a) of
        (Some e, s1) \<Rightarrow> Some (Threw e, s1)
      | (None, s1) \<Rightarrow>
          (let addr = toChecksum (options_from (options (heap s1 r)));
               s2 = lookupMutex s1 addr
           in if lockMap s2 addr = Some True then None
              else (let s3 = acquire s2 addr
                    in case network a of
                         Inl message \<Rightarrow> Some (Threw (Error message), releaseNonceLock s3 addr)
                       | Inr nextNetworkNonce \<Rightarrow>
                           Some (Returned (getNonce_body toChecksum s3 addr nextNetworkNonce, addr), s3))))"

text \<open>
  \<^verbatim>\<open>submitTx\<close> after \<^verbatim>\<open>_waitQueue\<close> returned (lines 158 to 187): the claim, the
  events of the \<^verbatim>\<open>send\<close>, and \<^verbatim>\<open>_finalizeTx\<close>. The result is the \<^verbatim>\<open>err\<close> of
  the pair \<^verbatim>\<open>[err, result]\<close>.
\<close>

definition submitTx_send ::
  "(address \<Rightarrow> address) \<Rightarrow> TransactionManager \<Rightarrow> ref \<Rightarrow> nat \<Rightarrow> address \<Rightarrow> attempt
     \<Rightarrow> string option outcome \<times> TransactionManager" where
  "submitTx_send toChecksum s r nextNonce lockId a =
     (case claimNonce s r nextNonce lockId (clock a) of
        (Some e, s1) \<Rightarrow> (Threw e, s1)
      | (None, s1) \<Rightarrow>
          (let s2 = fold (\<lambda>ev t. handler toChecksum t r ev) (events a) s1
           in case finalizeTx s2 r (settled a) (clock a) of
                (Some e, s3) \<Rightarrow> (Threw e, s3)
              | (None, s3) \<Rightarrow> (Returned (settled a), s3)))"

text \<open>
  \<^verbatim>\<open>submitTx(obj, txMeta, defer, path)\<close> when no other call runs in between. A
  \<^verbatim>\<open>call\<close> returns what the node answers and touches nothing.
\<close>

definition submitTx ::
  "(address \<Rightarrow> address) \<Rightarrow> TransactionManager \<Rightarrow> ref \<Rightarrow> attempt
     \<Rightarrow> (string option outcome \<times> TransactionManager) option" where
  "submitTx toChecksum s r a =
     (if txType (heap s r) = call then Some (Returned (settled a), s)
      else case submitTx_getNonce toChecksum s r a of
             None \<Rightarrow> None
           | Some (Threw e, s1) \<Rightarrow> Some (Threw e, s1)
           | Some (Returned (nextNonce, lockId), s1) \<Rightarrow>
               (case waitQueue (\<lambda>k. s1) 0 0 of
                  None \<Rightarrow> None
                | Some w \<Rightarrow> Some (submitTx_send toChecksum s1 r nextNonce lockId a)))"

subsection \<open>sendWithRetry\<close>

text \<open>
  What a run of the retry loop does, in order: a call of \<^verbatim>\<open>submitTx\<close> that returned
  (with the nonce and the gas price of the options it sent, and its \<^verbatim>\<open>err\<close>), a call of
  the \<^verbatim>\<open>verify\<close> predicate with its answer as \<^verbatim>\<open>_verify\<close> reads it, a sleep in
  milliseconds.
\<close>

datatype action = Submit "nat option" "nat option" "string option" | Verify bool | Sleep nat

text \<open>
  The fields of \<^verbatim>\<open>retryOptions\<close> that the loop reads; \<open>verify_opt\<close> tells whether a
  predicate is configured (the default \<^verbatim>\<open>function() {}\<close> answers \<^verbatim>\<open>undefined\<close>).
\<close>

record retryOptions =
  retry_opt :: "nat option"
  delay_opt :: "nat option"
  verify_opt :: bool

definition updateNonce :: "string \<Rightarrow> nat option \<Rightarrow> nat option" where
  "updateNonce e n = (if str_includes e ''Transaction was not mined within'' then n else None)"

text \<open>The local \<^verbatim>\<open>updateTx\<close> of \<^verbatim>\<open>sendWithRetry\<close>; it returns \<^verbatim>\<open>[null, result]\<close>.\<close>

definition sendWithRetry_updateTx ::
  "TransactionManager \<Rightarrow> ref \<Rightarrow> nat \<Rightarrow> string option outcome \<times> TransactionManager" where
  "sendWithRetry_updateTx s r now =
     (if status (heap s r) \<noteq> Some confirmed
      then (case updateTx s r confirmed now of
              (Some e, s1) \<Rightarrow> (Threw e, s1)
            | (None, s1) \<Rightarrow> (Returned None, s1))
      else (Returned None, s))"

definition set_gasPrice :: "TransactionManager \<Rightarrow> ref \<Rightarrow> nat \<Rightarrow> TransactionManager" where
  "set_gasPrice s r g =
     s\<lparr>heap := (heap s)(r := (heap s r)\<lparr>options := (options (heap s r))\<lparr>options_gasPrice := Some g\<rparr>\<rparr>)\<rparr>"

definition delete_data :: "TransactionManager \<Rightarrow> ref \<Rightarrow> TransactionManager" where
  "delete_data s r =
     s\<lparr>heap := (heap s)(r := (heap s r)\<lparr>options := (options (heap s r))\<lparr>options_data := None\<rparr>\<rparr>)\<rparr>"

text \<open>
  The end of an iteration that is followed by another:
  \<^verbatim>\<open>txMeta.options.nonce = updateNonce(err.message, txMeta.nonce); txManager.retries++\<close>.
\<close>

definition next_attempt :: "TransactionManager \<Rightarrow> ref \<Rightarrow> string \<Rightarrow> TransactionManager" where
  "next_attempt s r message =
     s\<lparr>heap := (heap s)(r := (heap s r)\<lparr>options :=
            (options (heap s r))\<lparr>options_nonce := updateNonce message (nonce (heap s r))\<rparr>\<rparr>),
        retries := retries s + 1\<rparr>"

text \<open>
  The \<^verbatim>\<open>do \<dots> while\<close> loop of \<^verbatim>\<open>sendWithRetry\<close>, when no other call runs in
  between. \<open>price counter\<close> is the value of
  \<^verbatim>\<open>Math.ceil(+gasPrice * incBase ** counter)\<close>, which is computed in floating point
  and is taken as given; \<open>env counter\<close> is what the node, the clock and the predicate
  answer during the attempt. The result is the \<^verbatim>\<open>err\<close> of the returned pair, the
  manager, and what the loop did.
\<close>

function sendWithRetry_loop ::
  "(address \<Rightarrow> address) \<Rightarrow> nat \<Rightarrow> nat \<Rightarrow> bool \<Rightarrow> (nat \<Rightarrow> nat) \<Rightarrow> (nat \<Rightarrow> attempt)
     \<Rightarrow> TransactionManager \<Rightarrow> ref \<Rightarrow> nat \<Rightarrow> action list
     \<Rightarrow> (string option outcome \<times> TransactionManager \<times> action list) option" where
  "sendWithRetry_loop toChecksum retry delay verify price env s r counter trace =
     (let a = env counter;
          s1 = set_gasPrice s r (price counter)
      in case submitTx toChecksum s1 r a of
           None \<Rightarrow> None
         | Some (Threw e, s2) \<Rightarrow> Some (Threw e, s2, trace)
         | Some (Returned err, s2) \<Rightarrow>
             (let s3 = delete_data s2 r;
                  trace1 = trace @ [Submit (options_nonce (options (heap s3 r)))
                                      (options_gasPrice (options (heap s3 r))) err]
              in case err of
                   None \<Rightarrow>
                     (case sendWithRetry_updateTx s3 r (clock a) of
                        (res, s4) \<Rightarrow> Some (res, s4, trace1))
                 | Some message \<Rightarrow>
                     (let v1 = (verify \<and> verify1 a);
                          trace2 = trace1 @ [Verify v1]
                      in if v1
                         then (case sendWithRetry_updateTx s3 r (clock a) of
                                 (res, s4) \<Rightarrow> Some (res, s4, trace2))
                         else if retry = counter then Some (Returned err, s3, trace2)
                         else (let v2 = (verify \<and> verify2 a);
                                   trace3 = trace2 @ [Sleep (delay * (counter + 1) * 1000), Verify v2]
                               in if v2
                                  then (case sendWithRetry_updateTx s3 r (clock a) of
                                          (res, s4) \<Rightarrow> Some (res, s4, trace3))
                                  else (let s4 = next_attempt s3 r message
                                        in if counter + 1 \<le> retry
                                           then sendWithRetry_loop toChecksum retry delay verify
                                                  price env s4 r (counter + 1) trace3
                                           else Some (Returned err, s4, trace3))))))"
  by pat_completeness auto
termination
  by (relation "measure (\<lambda>(toChecksum, retry, delay, verify, price, env, s, r, counter, trace).
        retry + 1 - counter)") auto

declare sendWithRetry_loop.simps [simp del]

definition sendWithRetry ::
  "(address \<Rightarrow> address) \<Rightarrow> TransactionManager \<Rightarrow> ref \<Rightarrow> retryOptions \<Rightarrow> (nat \<Rightarrow> nat)
     \<Rightarrow> (nat \<Rightarrow> attempt)
     \<Rightarrow> (string option outcome \<times> TransactionManager \<times> action list) option" where
  "sendWithRetry toChecksum s r retryOptions price env =
     (let delay = or_else (delay_opt retryOptions) 10;
          verify = verify_opt retryOptions;
          retry = or_else (retry_opt retryOptions) 3
      in sendWithRetry_loop toChecksum retry delay verify price env s r 0 [])"

section \<open>Calls that run at the same time\<close>

text \<open>
  Node runs one piece of code at a time; a call is suspended at every \<^verbatim>\<open>await\<close>, and
  any other call may run before it goes on. A call of \<^verbatim>\<open>submitTx\<close> for the object
  \<open>r\<close> is at one of these places:
  \<^item> \<open>Idle\<close>: it has not been made (or the retry loop is about to make the next one);
  \<^item> \<open>AwaitLock a\<close>: after \<^verbatim>\<open>addTx\<close>, waiting for the mutex of \<open>a\<close>;
  \<^item> \<open>AwaitNetwork a\<close>: holding the mutex, waiting for \<^verbatim>\<open>getBlock\<close> and \<^verbatim>\<open>getTransactionCount\<close>;
  \<^item> \<open>GotNonce a n\<close>: \<^verbatim>\<open>getNonce\<close> has returned \<open>n\<close>;
  \<^item> \<open>Sleeping a n ms\<close>: in the \<^verbatim>\<open>sleep\<close> of \<^verbatim>\<open>_waitQueue\<close>;
  \<^item> \<open>PassedQueue a n\<close>: \<^verbatim>\<open>_waitQueue\<close> has returned;
  \<^item> \<open>Sending\<close>: the record is submitted, the mutex released, \<^verbatim>\<open>send\<close> is under way;
  \<^item> \<open>Settled err\<close>: \<^verbatim>\<open>submitTx\<close> has returned \<^verbatim>\<open>[err, result]\<close>;
  \<^item> \<open>Stopped\<close>: the caller is done with the object, or an exception ended the call.
\<close>

datatype pc =
    Idle
  | AwaitLock address
  | AwaitNetwork address
  | GotNonce address nat
  | Sleeping address nat nat
  | PassedQueue address nat
  | Sending
  | Settled "string option"
  | Stopped

record config =
  mgr :: TransactionManager
  pcs :: "ref \<Rightarrow> pc"

text \<open>
  One step of one call. The rules \<open>confirm\<close>, \<open>again\<close> and \<open>give_up\<close> are what
  \<^verbatim>\<open>sendWithRetry\<close> does with a returned \<^verbatim>\<open>submitTx\<close>; its counter and the answers of
  \<^verbatim>\<open>verify\<close> are left open, so that every run of the loop is a run of these rules.
\<close>

inductive step :: "(address \<Rightarrow> address) \<Rightarrow> config \<Rightarrow> config \<Rightarrow> bool"
  for toChecksum :: "address \<Rightarrow> address" where
  start:
    "pcs c r = Idle \<Longrightarrow> txType (heap (mgr c) r) = send \<Longrightarrow> addTx (mgr c) r now = (None, s1) \<Longrightarrow>
     addr = toChecksum (options_from (options (heap s1 r))) \<Longrightarrow>
     step toChecksum c \<lparr>mgr = lookupMutex s1 addr, pcs = (pcs c)(r := AwaitLock addr)\<rparr>"
| start_throws:
    "pcs c r = Idle \<Longrightarrow> txType (heap (mgr c) r) = send \<Longrightarrow> addTx (mgr c) r now = (Some e, s1) \<Longrightarrow>
     step toChecksum c \<lparr>mgr = s1, pcs = (pcs c)(r := Stopped)\<rparr>"
| lock:
    "pcs c r = AwaitLock addr \<Longrightarrow> lockMap (mgr c) addr = Some False \<Longrightarrow>
     step toChecksum c \<lparr>mgr = acquire (mgr c) addr, pcs = (pcs c)(r := AwaitNetwork addr)\<rparr>"
| query_fails:
    "pcs c r = AwaitNetwork addr \<Longrightarrow>
     step toChecksum c \<lparr>mgr = releaseNonceLock (mgr c) addr, pcs = (pcs c)(r := Stopped)\<rparr>"
| nonce_returned:
    "pcs c r = AwaitNetwork addr \<Longrightarrow>
     n = getNonce_body toChecksum (mgr c) addr nextNetworkNonce \<Longrightarrow>
     step toChecksum c \<lparr>mgr = mgr c, pcs = (pcs c)(r := GotNonce addr n)\<rparr>"
| queue_sleeps:
    "pcs c r = GotNonce addr n \<or> pcs c r = Sleeping addr n ms \<Longrightarrow>
     awaiting (mgr c) \<ge> awaitLimit \<Longrightarrow>
     step toChecksum c \<lparr>mgr = mgr c, pcs = (pcs c)(r := Sleeping addr n (awaitTime * 1000))\<rparr>"
| queue_passes:
    "pcs c r = GotNonce addr n \<or> pcs c r = Sleeping addr n ms \<Longrightarrow>
     \<not> awaiting (mgr c) \<ge> awaitLimit \<Longrightarrow>
     step toChecksum c \<lparr>mgr = mgr c, pcs = (pcs c)(r := PassedQueue addr n)\<rparr>"
| claim:
    "pcs c r = PassedQueue addr n \<Longrightarrow> claimNonce (mgr c) r n addr now = (None, s1) \<Longrightarrow>
     step toChecksum c \<lparr>mgr = s1, pcs = (pcs c)(r := Sending)\<rparr>"
| claim_throws:
    "pcs c r = PassedQueue addr n \<Longrightarrow> claimNonce (mgr c) r n addr now = (Some e, s1) \<Longrightarrow>
     step toChecksum c \<lparr>mgr = s1, pcs = (pcs c)(r := Stopped)\<rparr>"
| event:
    "pcs c r = Sending \<Longrightarrow>
     step toChecksum c \<lparr>mgr = handler toChecksum (mgr c) r ev, pcs = pcs c\<rparr>"
| settle:
    "pcs c r = Sending \<Longrightarrow> finalizeTx (mgr c) r err now = (None, s1) \<Longrightarrow>
     step toChecksum c \<lparr>mgr = s1, pcs = (pcs c)(r := Settled err)\<rparr>"
| settle_throws:
    "pcs c r = Sending \<Longrightarrow> finalizeTx (mgr c) r err now = (Some e, s1) \<Longrightarrow>
     step toChecksum c \<lparr>mgr = s1, pcs = (pcs c)(r := Stopped)\<rparr>"
| return:
    "pcs c r = Settled err \<Longrightarrow>
     step toChecksum c \<lparr>mgr = mgr c, pcs = (pcs c)(r := Stopped)\<rparr>"
| confirm:
    "pcs c r = Settled err \<Longrightarrow>
     sendWithRetry_updateTx (delete_data (mgr c) r) r now = (res, s1) \<Longrightarrow>
     step toChecksum c \<lparr>mgr = s1, pcs = (pcs c)(r := Stopped)\<rparr>"
| give_up:
    "pcs c r = Settled (Some message) \<Longrightarrow>
     step toChecksum c \<lparr>mgr = delete_data (mgr c) r, pcs = (pcs c)(r := Stopped)\<rparr>"
| again:
    "pcs c r = Settled (Some message) \<Longrightarrow>
     s1 = set_gasPrice (next_attempt (delete_data (mgr c) r) r message) r g \<Longrightarrow>
     step toChecksum c \<lparr>mgr = s1, pcs = (pcs c)(r := Idle)\<rparr>"

text \<open>
  At the beginning the manager is new, no call has been made, and every object is as
  \<^verbatim>\<open>getTxMeta\<close> builds it: \<^verbatim>\<open>from\<close> is \<^verbatim>\<open>options.from\<close>, and no other key is set.
\<close>

definition fresh :: "txMeta \<Rightarrow> bool" where
  "fresh m =
     (m = new_TransactionObject (options_from (options m)) (tx_to m) (tx_method m)
            (methodArgs m) (options m) (txType m))"

definition initial :: "config \<Rightarrow> bool" where
  "initial c =
     (mgr c = new_TransactionManager (heap (mgr c)) (idCounter (mgr c)) \<and>
      (\<forall>r. fresh (heap (mgr c) r) \<and> pcs c r = Idle))"



subsection \<open>The bound of the specification\<close>

text \<open>
  The nonces of the confirmed records of an address, and the second operand of the
  bound: one more than the highest of them, \<open>0\<close> when there is none. The records of
  an address are those that were sent from it, however the caller spelled it: those whose
  \<^verbatim>\<open>from\<close> has the same checksum form as the address.
\<close>

definition confirmedNonces :: "(address \<Rightarrow> address) \<Rightarrow> TransactionManager \<Rightarrow> address \<Rightarrow> nat list" where
  "confirmedNonces toChecksum s a =
     List.map_filter (\<lambda>r. nonce (heap s r))
       (filter (\<lambda>r. status (heap s r) = Some confirmed \<and>
                     toChecksum (tx_from (heap s r)) = toChecksum a) (tx s))"

definition highestConfirmed :: "(address \<Rightarrow> address) \<Rightarrow> TransactionManager \<Rightarrow> address \<Rightarrow> nat" where
  "highestConfirmed toChecksum s a =
     (if confirmedNonces toChecksum s a = [] then 0
      else 1 + Max (set (confirmedNonces toChecksum s a)))"

text \<open>Every stored record of the address has its \<^verbatim>\<open>from\<close> in checksum form.\<close>

definition stored_in_checksum_form :: "(address \<Rightarrow> address) \<Rightarrow> TransactionManager \<Rightarrow> address \<Rightarrow> bool" where
  "stored_in_checksum_form toChecksum s a =
     (\<forall>r\<in>set (tx s). toChecksum (tx_from (heap s r)) = toChecksum a \<longrightarrow>
        tx_from (heap s r) = toChecksum a)"

text \<open>Every confirmed record carries a nonce.\<close>

definition confirmed_have_nonce :: "TransactionManager \<Rightarrow> bool" where
  "confirmed_have_nonce s =
     (\<forall>r. status (heap s r) = Some confirmed \<longrightarrow> nonce (heap s r) \<noteq> None)"

subsection \<open>The ids of the stored records\<close>

definition ids :: "TransactionManager \<Rightarrow> nat option list" where
  "ids s = map (\<lambda>t. tx_id (heap s t)) (tx s)"

text \<open>
  Every stored record has an id, no two stored records share one, and every id was
  handed out by the counter before it reached its present value.
\<close>

definition ids_ok :: "TransactionManager \<Rightarrow> bool" where
  "ids_ok s = (distinct (ids s) \<and> None \<notin> set (ids s) \<and> (\<forall>i. Some i \<in> set (ids s) \<longrightarrow> i < idCounter s))"

subsection \<open>Reading a run of the retry loop\<close>

text \<open>A stored record has the id of the object \<open>r\<close>, so that \<^verbatim>\<open>findIndex\<close> in \<^verbatim>\<open>updateTx\<close> finds one.\<close>

definition known :: "TransactionManager \<Rightarrow> ref \<Rightarrow> bool" where
  "known s r = (findIndex (\<lambda>t. tx_id (heap s t) = tx_id (heap s r)) (tx s) \<noteq> None)"




text \<open>An object whose \<^verbatim>\<open>send\<close> is under way or has settled carries a nonce.\<close>

definition sent_have_nonce :: "config \<Rightarrow> bool" where
  "sent_have_nonce c =
     (\<forall>r. pcs c r = Sending \<or> (\<exists>err. pcs c r = Settled err) \<longrightarrow> nonce (heap (mgr c) r) \<noteq> None)"

text \<open>No object loses its nonce from the first manager to the second.\<close>

definition nonces_kept :: "TransactionManager \<Rightarrow> TransactionManager \<Rightarrow> bool" where
  "nonces_kept s s' = (\<forall>t. nonce (heap s t) \<noteq> None \<longrightarrow> nonce (heap s' t) \<noteq> None)"

subsection \<open>Serialised nonce selection\<close>


text \<open>An object that has the id of a stored record is that record.\<close>

definition ids_own :: "TransactionManager \<Rightarrow> bool" where
  "ids_own s = (\<forall>t\<in>set (tx s). \<forall>r. tx_id (heap s r) = tx_id (heap s t) \<longrightarrow> r = t)"



text \<open>
  What a step of the call for the object \<open>r\<close> may do to the records: it writes to
  \<open>r\<close> only, keeps \<^verbatim>\<open>from\<close> and \<^verbatim>\<open>options.from\<close>, and either leaves the list and the
  ids alone or stores \<open>r\<close> under the next id without touching its status and nonce.
\<close>

definition effect :: "ref \<Rightarrow> TransactionManager \<Rightarrow> TransactionManager \<Rightarrow> bool" where
  "effect r s s' =
     ((\<forall>t. t \<noteq> r \<longrightarrow> heap s' t = heap s t) \<and>
      tx_from (heap s' r) = tx_from (heap s r) \<and>
      options_from (options (heap s' r)) = options_from (options (heap s r)) \<and>
      (tx s' = tx s \<and> idCounter s' = idCounter s \<and> tx_id (heap s' r) = tx_id (heap s r) \<or>
       tx s' = tx s @ [r] \<and> idCounter s' = idCounter s + 1 \<and>
       tx_id (heap s' r) = Some (idCounter s) \<and>
       status (heap s' r) = status (heap s r) \<and> nonce (heap s' r) = nonce (heap s r)))"

text \<open>A step that submits nothing: if \<open>r\<close> is \<open>submitted\<close> afterwards, it was so before, with the same nonce.\<close>

definition quiet :: "ref \<Rightarrow> TransactionManager \<Rightarrow> TransactionManager \<Rightarrow> bool" where
  "quiet r s s' =
     (effect r s s' \<and>
      (status (heap s' r) = Some submitted \<longrightarrow>
         tx s' = tx s \<and> status (heap s r) = Some submitted \<and> nonce (heap s' r) = nonce (heap s r)))"


section \<open>Concrete objects for the examples\<close>

definition options0 :: options where
  "options0 = \<lparr>options_from = ''0xA'', options_gas = None, options_gasPrice = None,
     options_nonce = None, options_value = None, options_data = None\<rparr>"

definition txMeta0 :: txMeta where
  "txMeta0 = new_TransactionObject ''0xA'' (Some ''0xC'') ''transfer'' [] options0 send"

text \<open>A manager whose exclusion set for \<open>0xA\<close> holds the 200 nonces \<open>0, \<dots>, 199\<close>.\<close>

definition full_manager :: TransactionManager where
  "full_manager =
     (new_TransactionManager (\<lambda>_. txMeta0\<lparr>nonce := Some 200\<rparr>) 0)
       \<lparr>nonceInUse := [''0xA'' \<mapsto>
           \<lparr>lengthLimit = 200, unique = True, items = map Some [0..<200]\<rparr>]\<rparr>"

text \<open>A new manager in which the object \<open>0\<close> carries the nonce \<open>5\<close>.\<close>

definition manager5 :: TransactionManager where
  "manager5 = new_TransactionManager (\<lambda>_. txMeta0\<lparr>nonce := Some 5\<rparr>) 0"

text \<open>A new manager whose objects carry the id \<open>7\<close>, which no stored record has.\<close>

definition manager7 :: TransactionManager where
  "manager7 = new_TransactionManager (\<lambda>_. txMeta0\<lparr>tx_id := Some 7\<rparr>) 0"

text \<open>
  A manager that stores the object \<open>0\<close> under the id \<open>1\<close>; the other objects have no
  id yet, and the counter stands at \<open>2\<close>.
\<close>

definition manager1 :: TransactionManager where
  "manager1 =
     (new_TransactionManager (\<lambda>r. if r = 0 then txMeta0\<lparr>tx_id := Some 1\<rparr> else txMeta0) 2)
       \<lparr>tx := [0]\<rparr>"

text \<open>
  A new manager for fresh objects of the address \<open>0xA\<close>, a mining timeout with its
  \<^verbatim>\<open>error\<close> event, and a \<^verbatim>\<open>send\<close> that is mined.
\<close>

definition manager_new :: TransactionManager where
  "manager_new = new_TransactionManager (\<lambda>_. txMeta0) 1"

definition timeout_message :: string where
  "timeout_message = ''Transaction was not mined within 750 seconds''"

definition attempt_timeout :: attempt where
  "attempt_timeout =
     \<lparr>clock = 1000, network = Inr 0, events = [ErrorEvent timeout_message],
      settled = Some timeout_message, verify1 = True, verify2 = True\<rparr>"

definition attempt_mined :: attempt where
  "attempt_mined =
     \<lparr>clock = 2000, network = Inr 0, events = [TransactionHash ''0xh'', Receipt 7 (Some 21000)],
      settled = None, verify1 = True, verify2 = True\<rparr>"

definition timeout_then_mined :: "nat \<Rightarrow> attempt" where
  "timeout_then_mined k = (if k = 0 then attempt_timeout else attempt_mined)"

definition retry_once :: retryOptions where
  "retry_once = \<lparr>retry_opt = Some 1, delay_opt = None, verify_opt = False\<rparr>"

definition retry_once_verified :: retryOptions where
  "retry_once_verified = \<lparr>retry_opt = Some 1, delay_opt = None, verify_opt = True\<rparr>"

text \<open>
  A manager in which a transaction of \<open>0xA\<close> with nonce \<open>0\<close> is in flight (the object
  \<open>1\<close>), and the caller of every other object asks for the nonce \<open>0\<close> in the options.
\<close>

definition manager_stuck :: TransactionManager where
  "manager_stuck =
     (new_TransactionManager
        ((\<lambda>_. txMeta0\<lparr>options := options0\<lparr>options_nonce := Some 0\<rparr>\<rparr>)
           (1 := txMeta0\<lparr>tx_id := Some 1, time := Some 500, status := Some submitted,
                          lastUpdate := Some 500, nonce := Some 0,
                          options := options0\<lparr>options_nonce := Some 0\<rparr>\<rparr>)) 2)
       \<lparr>tx := [1], lockMap := [''0xA'' \<mapsto> False]\<rparr>"

text \<open>
  A manager with one hundred submitted records of the address \<open>0xB\<close> (the objects
  \<open>0\<close> to \<open>99\<close>), and what two checks of the queue and a third one find when the
  records have settled in between.
\<close>

definition manager100 :: TransactionManager where
  "manager100 =
     (new_TransactionManager
        (\<lambda>r. if r < 100
             then txMeta0\<lparr>tx_id := Some (r + 1), tx_from := ''0xB'', time := Some 1,
                          status := Some submitted, lastUpdate := Some 1, nonce := Some r\<rparr>
             else txMeta0) 101)
       \<lparr>tx := [0..<100]\<rparr>"

definition crowded_then_free :: "nat \<Rightarrow> TransactionManager" where
  "crowded_then_free k = (if k < 2 then manager100 else manager_new)"







text \<open>
  A checksum function that knows one address, \<open>0xa\<close> with the checksum form \<open>0xA\<close>, and
  a new manager for objects whose caller wrote the address in lower case.
\<close>

definition toChecksum_A :: "address \<Rightarrow> address" where
  "toChecksum_A a = (if a = ''0xa'' then ''0xA'' else a)"

definition txMeta_lower :: txMeta where
  "txMeta_lower =
     new_TransactionObject ''0xa'' (Some ''0xC'') ''transfer'' [] (options0\<lparr>options_from := ''0xa''\<rparr>) send"

definition manager_lower :: TransactionManager where
  "manager_lower = new_TransactionManager (\<lambda>_. txMeta_lower) 1"





section \<open>The exclusion set stays bounded and free of duplicates\<close>

lemma from_Set_set [simp]: "set (from_Set xs) = set xs"
  by (induction xs rule: from_Set.induct) auto

lemma from_Set_distinct [simp]: "distinct (from_Set xs)"
  by (induction xs rule: from_Set.induct) auto

lemma push_one:
  "unique a \<Longrightarrow> lengthLimit a = 200 \<Longrightarrow>
   items (push a [v]) =
     (if v \<in> set (items a) then items a
      else if length (items a) \<ge> 200 then drop 1 (items a) @ [v]
      else items a @ [v])"
  by (simp add: push_def add_def truncate_fla_def Let_def)

lemma push_one_fields:
  "unique (push a [v]) = unique a \<and> lengthLimit (push a [v]) = lengthLimit a"
  by (simp add: push_def add_def truncate_fla_def Let_def)

lemma new_TransactionManager_ok: "nonceInUse_ok (new_TransactionManager h c)"
  by (simp add: nonceInUse_ok_def new_TransactionManager_def)

lemma top_ge: "Some n \<in> set xs \<Longrightarrow> n \<le> top_nonce xs"
  by (induction xs rule: top_nonce.induct) auto

lemma checkError_other:
  "\<not> isNonceError message \<Longrightarrow> checkError toChecksum s message addr r = s"
  by (simp add: checkError_def isNonceError_def)

lemma checkError_nonceInUse:
  "isNonceError message \<Longrightarrow>
   nonceInUse (checkError toChecksum s message addr r) =
     (nonceInUse s)(toChecksum addr \<mapsto>
        push (case nonceInUse s (toChecksum addr) of
                None \<Rightarrow> new_FixedLengthArray 200 True | Some a \<Rightarrow> a) [nonce (heap s r)])"
  by (simp add: checkError_def isNonceError_def Let_def)

lemma push_one_ok:
  assumes "unique a" "lengthLimit a = 200" "distinct (items a)" "length (items a) \<le> 200"
  shows "distinct (items (push a [v])) \<and> length (items (push a [v])) \<le> 200"
proof -
  have "distinct (drop 1 (items a))"
    using assms(3) by simp
  moreover have "v \<notin> set (items a) \<Longrightarrow> v \<notin> set (drop 1 (items a))"
    by (meson in_set_dropD)
  ultimately show ?thesis
    using assms by (simp add: push_one)
qed

text \<open>
  C10. The exclusion sets of a fresh manager are well formed, and \<^verbatim>\<open>_checkError\<close>, the
  only function that writes \<^verbatim>\<open>_nonceInUse\<close>, keeps every set free of duplicates and
  at most 200 long. On one of the four nonce errors the set of the address afterwards is
  the old one if the nonce is already a member, the old one without its first (oldest)
  entry followed by the nonce if it held 200 entries, and the old one followed by the
  nonce otherwise.
\<close>

theorem exclusion_set_bounded_unique:
  "nonceInUse_ok (new_TransactionManager h c) \<and>
   (nonceInUse_ok s \<longrightarrow>
      nonceInUse_ok (checkError toChecksum s message addr r) \<and>
      (isNonceError message \<longrightarrow>
         (\<exists>arr. nonceInUse (checkError toChecksum s message addr r) (toChecksum addr) = Some arr \<and>
            items arr =
              (let old = (case nonceInUse s (toChecksum addr) of None \<Rightarrow> [] | Some a \<Rightarrow> items a);
                   v = nonce (heap s r)
               in if v \<in> set old then old
                  else if length old = 200 then tl old @ [v]
                  else old @ [v]))))"
proof (intro conjI impI)
  show "nonceInUse_ok (new_TransactionManager h c)"
    by (rule new_TransactionManager_ok)
next
  assume ok: "nonceInUse_ok s"
  show "nonceInUse_ok (checkError toChecksum s message addr r)"
  proof (cases "isNonceError message")
    case False
    then show ?thesis using ok by (simp add: checkError_other)
  next
    case True
    let ?a = "case nonceInUse s (toChecksum addr) of
                None \<Rightarrow> new_FixedLengthArray 200 True | Some a \<Rightarrow> a"
    have a: "unique ?a" "lengthLimit ?a = 200" "distinct (items ?a)" "length (items ?a) \<le> 200"
      using ok by (auto simp: nonceInUse_ok_def new_FixedLengthArray_def split: option.splits)
    have "distinct (items (push ?a [nonce (heap s r)])) \<and>
          length (items (push ?a [nonce (heap s r)])) \<le> 200"
      by (rule push_one_ok [OF a])
    then show ?thesis
      using ok a True
      by (auto simp: nonceInUse_ok_def checkError_nonceInUse push_one_fields)
  qed
next
  assume ok: "nonceInUse_ok s" and err: "isNonceError message"
  let ?a = "case nonceInUse s (toChecksum addr) of
              None \<Rightarrow> new_FixedLengthArray 200 True | Some a \<Rightarrow> a"
  have a: "unique ?a" "lengthLimit ?a = 200" "length (items ?a) \<le> 200"
    using ok by (auto simp: nonceInUse_ok_def new_FixedLengthArray_def split: option.splits)
  have old: "(case nonceInUse s (toChecksum addr) of None \<Rightarrow> [] | Some a \<Rightarrow> items a) = items ?a"
    by (simp add: new_FixedLengthArray_def split: option.splits)
  have "items (push ?a [nonce (heap s r)]) =
          (if nonce (heap s r) \<in> set (items ?a) then items ?a
           else if length (items ?a) = 200 then tl (items ?a) @ [nonce (heap s r)]
           else items ?a @ [nonce (heap s r)])"
    using a by (simp add: push_one drop_Suc)
  then show "\<exists>arr. nonceInUse (checkError toChecksum s message addr r) (toChecksum addr) = Some arr \<and>
            items arr =
              (let old = (case nonceInUse s (toChecksum addr) of None \<Rightarrow> [] | Some a \<Rightarrow> items a);
                   v = nonce (heap s r)
               in if v \<in> set old then old
                  else if length old = 200 then tl old @ [v]
                  else old @ [v])"
    using err by (simp add: checkError_nonceInUse old Let_def)
qed

theorem exclusion_set_bounded_unique_witness:
  "nonceInUse_ok full_manager \<and> isNonceError ''nonce too low'' \<and>
   nonceInUse_ok (checkError (\<lambda>a. a) full_manager ''nonce too low'' ''0xA'' 0) \<and>
   (\<exists>arr. nonceInUse (checkError (\<lambda>a. a) full_manager ''nonce too low'' ''0xA'' 0) ''0xA'' = Some arr \<and>
      items arr = tl (map Some [0..<200]) @ [Some 200])"
proof -
  have ok: "nonceInUse_ok full_manager"
    by (simp add: nonceInUse_ok_def full_manager_def new_TransactionManager_def distinct_map)
  have err: "isNonceError ''nonce too low''"
    by (simp add: isNonceError_def)
  have old: "nonceInUse full_manager ''0xA'' =
      Some \<lparr>lengthLimit = 200, unique = True, items = map Some [0..<200]\<rparr>"
    by (simp add: full_manager_def new_TransactionManager_def)
  have v: "nonce (heap full_manager 0) = Some 200"
    by (simp add: full_manager_def new_TransactionManager_def)
  have new: "Some 200 \<notin> set (map Some [0..<200])"
    by auto
  show ?thesis
    using exclusion_set_bounded_unique
      [of "\<lambda>_. txMeta0" 0 full_manager "\<lambda>a. a" "''nonce too low''" "''0xA''" 0] ok err new
    by (simp add: old v Let_def)
qed

lemma continuousFrom_ge: "h \<le> continuousFrom nonces addr inUse h"
proof (induction nonces addr inUse h rule: continuousFrom.induct)
  case (1 nonces addr inUse highest)
  show ?case
    using "1.IH" by (subst continuousFrom.simps) auto
qed


lemma continuousFrom_not_inUse:
  "addr \<noteq> [] \<Longrightarrow> Some (continuousFrom nonces addr (Some a) h) \<notin> set (items a)"
proof (induction nonces addr "Some a" h rule: continuousFrom.induct)
  case (1 nonces addr highest)
  show ?case
    using "1.hyps" "1.prems" by (subst continuousFrom.simps) auto
qed

lemma filterTxByStatus_Some:
  "filterTxByStatus s (Some a) st =
     filter (\<lambda>r. status (heap s r) = Some st \<and> (a \<noteq> [] \<longrightarrow> tx_from (heap s r) = a)) (tx s)"
  by (simp add: filterTxByStatus_def getFilteredTxList_def getTxsByMetaData_def conj_commute)

lemma filterTxByStatus_None:
  "filterTxByStatus s None st = filter (\<lambda>r. status (heap s r) = Some st) (tx s)"
  by (simp add: filterTxByStatus_def getFilteredTxList_def getTxsByMetaData_def)

lemma getNonce_body_ge_network: "net \<le> getNonce_body toChecksum s addr net"
  by (simp add: getNonce_body_def Let_def)

lemma getNonce_body_eq:
  "getNonce_body toChecksum s addr net =
     getHighestContinuousFrom toChecksum s
       (getSubmittedTransactions s (Some addr) @
        filter (\<lambda>r. case nonce (heap s r) of None \<Rightarrow> False | Some n \<Rightarrow> n > 0)
          (getPendingTransactions s (Some addr)))
       (max net (getHighestLocallyConfirmed s addr)) addr"
proof -
  have "max net (getHighestLocallyConfirmed s addr) \<le> getHighestContinuousFrom toChecksum s
       (getSubmittedTransactions s (Some addr) @
        filter (\<lambda>r. case nonce (heap s r) of None \<Rightarrow> False | Some n \<Rightarrow> n > 0)
          (getPendingTransactions s (Some addr)))
       (max net (getHighestLocallyConfirmed s addr)) addr"
    by (simp add: getHighestContinuousFrom_def Let_def continuousFrom_ge)
  then show ?thesis
    by (auto simp: getNonce_body_def Let_def or_else_def max_def)
qed

lemma getNonce_body_ge_confirmed: "getHighestLocallyConfirmed s addr \<le> getNonce_body toChecksum s addr net"
  unfolding getNonce_body_eq getHighestContinuousFrom_def Let_def
  by (rule order_trans [OF _ continuousFrom_ge]) simp


lemma getNonce_body_not_inUse:
  assumes "addr \<noteq> []" "toChecksum addr = addr" "nonceInUse s addr = Some a"
  shows "Some (getNonce_body toChecksum s addr net) \<notin> set (items a)"
  unfolding getNonce_body_eq getHighestContinuousFrom_def Let_def
  using assms continuousFrom_not_inUse by simp

lemma foldl_Math_max:
  assumes "\<forall>r\<in>set xs. f r \<noteq> None"
  shows "\<exists>m. foldl Math_max (Num x) (map (\<lambda>r. of_nonce (f r)) xs) = Num m \<and> x \<le> m \<and>
             (\<forall>r\<in>set xs. \<forall>n. f r = Some n \<longrightarrow> n \<le> m)"
  using assms
proof (induction xs arbitrary: x)
  case Nil
  then show ?case by simp
next
  case (Cons a xs)
  then obtain n where n: "f a = Some n" by auto
  from Cons.prems have "\<forall>r\<in>set xs. f r \<noteq> None" by simp
  from Cons.IH [OF this, of "max x n"] obtain m where
    m: "foldl Math_max (Num (max x n)) (map (\<lambda>r. of_nonce (f r)) xs) = Num m"
       "max x n \<le> m" "\<forall>r\<in>set xs. \<forall>k. f r = Some k \<longrightarrow> k \<le> m"
    by blast
  have "Math_max (Num x) (of_nonce (f a)) = Num (max x n)"
    by (simp add: Math_max_def of_nonce_def n)
  then show ?case using m n by auto
qed

lemma getHighestNonce_ge:
  assumes all: "\<forall>r\<in>set l. nonce (heap s r) \<noteq> None"
    and r: "r \<in> set l" "nonce (heap s r) = Some n"
  shows "\<exists>m. getHighestNonce s l = Num m \<and> n \<le> m"
proof (cases l)
  case Nil
  then show ?thesis using r by simp
next
  case (Cons a xs)
  from all Cons obtain k where k: "nonce (heap s a) = Some k" by auto
  from all Cons have "\<forall>r\<in>set xs. nonce (heap s r) \<noteq> None" by simp
  from foldl_Math_max [OF this, of k] obtain m where
    m: "foldl Math_max (Num k) (map (\<lambda>r. of_nonce (nonce (heap s r))) xs) = Num m"
       "k \<le> m" "\<forall>r\<in>set xs. \<forall>j. nonce (heap s r) = Some j \<longrightarrow> j \<le> m"
    by blast
  have "getHighestNonce s l = Num m"
    using m(1) by (simp add: getHighestNonce_def Cons of_nonce_def k)
  moreover have "n \<le> m"
    using r Cons k m by auto
  ultimately show ?thesis by blast
qed

lemma getHighestLocallyConfirmed_ge:
  assumes "confirmed_have_nonce s"
    and "r \<in> set (tx s)" "status (heap s r) = Some confirmed" "tx_from (heap s r) = a"
    and "nonce (heap s r) = Some n"
  shows "n + 1 \<le> getHighestLocallyConfirmed s a"
proof -
  let ?l = "getConfirmedTransactions s (Some a)"
  have all: "\<forall>r\<in>set ?l. nonce (heap s r) \<noteq> None"
    using assms(1) by (auto simp: confirmed_have_nonce_def getConfirmedTransactions_def filterTxByStatus_Some)
  have "r \<in> set ?l"
    using assms by (simp add: getConfirmedTransactions_def filterTxByStatus_Some)
  from getHighestNonce_ge [OF all this assms(5)] show ?thesis
    by (auto simp: getHighestLocallyConfirmed_def Let_def)
qed

text \<open>
  Where the records of the address are stored in checksum form, \<^verbatim>\<open>getNonce\<close> finds
  them, and the bound of the specification holds.
\<close>

lemma highestConfirmed_le:
  assumes "confirmed_have_nonce s" "stored_in_checksum_form toChecksum s a"
  shows "highestConfirmed toChecksum s a \<le> getHighestLocallyConfirmed s (toChecksum a)"
proof (cases "confirmedNonces toChecksum s a = []")
  case True
  then show ?thesis by (simp add: highestConfirmed_def)
next
  case False
  then have "Max (set (confirmedNonces toChecksum s a)) \<in> set (confirmedNonces toChecksum s a)"
    by (intro Max_in) auto
  then obtain r where r: "r \<in> set (tx s)" "status (heap s r) = Some confirmed"
    "toChecksum (tx_from (heap s r)) = toChecksum a"
    "nonce (heap s r) = Some (Max (set (confirmedNonces toChecksum s a)))"
    by (auto simp: confirmedNonces_def List.map_filter_def)
  from assms(2) r(1,3) have "tx_from (heap s r) = toChecksum a"
    by (simp add: stored_in_checksum_form_def)
  from getHighestLocallyConfirmed_ge [OF assms(1) r(1,2) this r(4)] show ?thesis
    using False by (simp add: highestConfirmed_def)
qed

lemma getNonce_lower_bound:
  assumes "confirmed_have_nonce s" "stored_in_checksum_form toChecksum s A"
  shows "max net (highestConfirmed toChecksum s A) \<le> getNonce toChecksum s A net"
  using highestConfirmed_le [OF assms]
    getNonce_body_ge_confirmed [of s "toChecksum A" toChecksum net]
    getNonce_body_ge_network [of net toChecksum s "toChecksum A"]
  by (simp add: getNonce_def)

lemma push_one_mem: "v \<in> set (items (push a [v]))"
  by (simp add: push_def add_def truncate_fla_def Let_def)

text \<open>
  C5. Let \<open>toChecksum\<close> give a non-empty address for \<open>A\<close> and give the same address when
  it is applied again. After \<^verbatim>\<open>_checkError\<close> saw a \<open>nonce too low\<close> error of a transaction
  of \<open>A\<close> with nonce \<open>n\<close>, the exclusion set of \<open>A\<close> contains \<open>n\<close> and \<^verbatim>\<open>getNonce\<close> for
  \<open>A\<close> with network nonce \<open>n\<close> returns more than \<open>n\<close>; and so does \<^verbatim>\<open>getNonce\<close> in
  every state whose exclusion set of \<open>A\<close> contains \<open>n\<close>. The claim is the case \<open>n = 5\<close>.
\<close>

theorem excluded_nonce_is_skipped:
  assumes idem: "toChecksum (toChecksum A) = toChecksum A" and ne: "toChecksum A \<noteq> []"
  shows "(str_includes message ''nonce too low'' \<and> nonce (heap s r) = Some n \<longrightarrow>
            (\<exists>arr. nonceInUse (checkError toChecksum s message A r) (toChecksum A) = Some arr \<and>
                   Some n \<in> set (items arr)) \<and>
            n < getNonce toChecksum (checkError toChecksum s message A r) A n) \<and>
         (\<forall>arr. nonceInUse s (toChecksum A) = Some arr \<and> Some n \<in> set (items arr) \<longrightarrow>
            n < getNonce toChecksum s A n)"
proof -
  have skip: "n < getNonce toChecksum t A n"
    if "nonceInUse t (toChecksum A) = Some arr" "Some n \<in> set (items arr)" for t arr
  proof -
    have "Some (getNonce toChecksum t A n) \<notin> set (items arr)"
      unfolding getNonce_def
      using getNonce_body_not_inUse [of "toChecksum A" toChecksum t arr n] ne idem that(1) by simp
    then have "getNonce toChecksum t A n \<noteq> n"
      using that(2) by auto
    moreover have "n \<le> getNonce toChecksum t A n"
      unfolding getNonce_def by (rule getNonce_body_ge_network)
    ultimately show ?thesis by simp
  qed
  have "\<exists>arr. nonceInUse (checkError toChecksum s message A r) (toChecksum A) = Some arr \<and>
                   Some n \<in> set (items arr)"
    if "str_includes message ''nonce too low''" "nonce (heap s r) = Some n"
  proof -
    have "isNonceError message"
      using that(1) by (simp add: isNonceError_def)
    then show ?thesis
      using push_one_mem [of "nonce (heap s r)"] that(2)
      by (simp add: checkError_nonceInUse)
  qed
  then show ?thesis
    using skip by blast
qed

theorem excluded_nonce_is_skipped_witness:
  "5 < getNonce (\<lambda>a. a) (checkError (\<lambda>a. a) manager5 ''nonce too low'' ''0xA'' 0) ''0xA'' 5 \<and>
   5 < getNonce (\<lambda>a. a) full_manager ''0xA'' 5"
proof -
  have m: "str_includes ''nonce too low'' ''nonce too low''"
    by simp
  have n: "nonce (heap manager5 0) = Some 5"
    by (simp add: manager5_def new_TransactionManager_def)
  have f: "nonceInUse full_manager ''0xA'' =
             Some \<lparr>lengthLimit = 200, unique = True, items = map Some [0..<200]\<rparr>"
    by (simp add: full_manager_def new_TransactionManager_def)
  have i: "Some (5::nat) \<in> set (map Some [0..<200])"
    by simp
  show ?thesis
    using excluded_nonce_is_skipped [of "\<lambda>a. a" "''0xA''" "''nonce too low''" manager5 0 5]
      excluded_nonce_is_skipped [of "\<lambda>a. a" "''0xA''" "''nonce too low''" full_manager 0 5]
      m n f i
    by simp
qed

lemma findIndex_Some:
  "findIndex p xs = Some i \<Longrightarrow> i < length xs \<and> p (xs ! i) \<and> (\<forall>j<i. \<not> p (xs ! j))"
proof (induction xs arbitrary: i)
  case Nil
  then show ?case by simp
next
  case (Cons x xs)
  show ?case
  proof (cases "p x")
    case True
    then show ?thesis using Cons.prems by simp
  next
    case False
    with Cons.prems obtain k where k: "findIndex p xs = Some k" "i = Suc k"
      by auto
    from Cons.IH [OF k(1)] False k(2) show ?thesis
      by (auto simp: less_Suc_eq_0_disj)
  qed
qed

lemma findIndex_None: "findIndex p xs = None \<longleftrightarrow> (\<forall>x\<in>set xs. \<not> p x)"
  by (induction xs) auto

lemma keep_self [simp]: "keep x x = x"
  by (simp add: keep_def split: option.splits)

lemma merge_keys_self [simp]: "merge_keys m m = m"
  by (simp add: merge_keys_def)

lemma merge_keys_idem [simp]: "merge_keys (merge_keys t m) m = merge_keys t m"
  by (simp add: merge_keys_def keep_def split: option.splits)

lemma merge_keys_id: "tx_id t = tx_id m \<Longrightarrow> tx_id (merge_keys t m) = tx_id t"
  by (simp add: merge_keys_def)

text \<open>What \<^verbatim>\<open>updateTx\<close> does when the id is found, and when it is not.\<close>

lemma updateTx_found:
  assumes "findIndex (\<lambda>t. tx_id (heap s t) = tx_id (heap s r)) (tx s) = Some k"
  shows "updateTx s r st now =
     (None, s\<lparr>heap := (heap s)
        (r := (heap s r)\<lparr>status := Some st, lastUpdate := Some now\<rparr>,
         tx s ! k := merge_keys
            (if tx s ! k = r then (heap s r)\<lparr>status := Some st, lastUpdate := Some now\<rparr>
             else heap s (tx s ! k))
            ((heap s r)\<lparr>status := Some st, lastUpdate := Some now\<rparr>))\<rparr>)"
proof -
  have "(\<lambda>t. tx_id (if t = r then (heap s r)\<lparr>status := Some st, lastUpdate := Some now\<rparr> else heap s t) = tx_id (heap s r))
        = (\<lambda>t. tx_id (heap s t) = tx_id (heap s r))"
    by auto
  then show ?thesis
    using assms by (simp add: updateTx_def Let_def)
qed

lemma updateTx_not_found:
  assumes "findIndex (\<lambda>t. tx_id (heap s t) = tx_id (heap s r)) (tx s) = None"
  shows "updateTx s r st now =
     (Some TypeError, s\<lparr>heap := (heap s)(r := (heap s r)\<lparr>status := Some st, lastUpdate := Some now\<rparr>)\<rparr>)"
proof -
  have "(\<lambda>t. tx_id (if t = r then (heap s r)\<lparr>status := Some st, lastUpdate := Some now\<rparr> else heap s t) = tx_id (heap s r))
        = (\<lambda>t. tx_id (heap s t) = tx_id (heap s r))"
    by auto
  then show ?thesis
    using assms by (simp add: updateTx_def Let_def)
qed

lemma updateTx_frame:
  "tx (snd (updateTx s r st now)) = tx s \<and> idCounter (snd (updateTx s r st now)) = idCounter s \<and>
   lockMap (snd (updateTx s r st now)) = lockMap s \<and>
   nonceInUse (snd (updateTx s r st now)) = nonceInUse s \<and>
   (\<forall>t. tx_id (heap (snd (updateTx s r st now)) t) = tx_id (heap s t))"
proof (cases "findIndex (\<lambda>t. tx_id (heap s t) = tx_id (heap s r)) (tx s)")
  case None
  then show ?thesis by (simp add: updateTx_not_found)
next
  case (Some k)
  from findIndex_Some [OF Some] have "tx_id (heap s (tx s ! k)) = tx_id (heap s r)"
    by simp
  then show ?thesis by (simp add: updateTx_found [OF Some] merge_keys_def)
qed

text \<open>The object as \<^verbatim>\<open>addTx\<close> leaves it before it looks at the id.\<close>

lemma addTx_with_id:
  assumes "tx_id (heap s r) = Some i" "i \<noteq> 0"
  shows "addTx s r now =
     updateTx (s\<lparr>heap := (heap s)(r := (heap s r)\<lparr>txHash := None, data := None,
                    time := Some (or_else (time (heap s r)) now)\<rparr>)\<rparr>) r pending now"
  using assms by (simp add: addTx_def Let_def getFilteredTxList_def)

lemma addTx_without_id:
  assumes "tx_id (heap s r) = None \<or> tx_id (heap s r) = Some 0"
  shows "addTx s r now =
     (None, s\<lparr>heap := (heap s)(r := (heap s r)\<lparr>txHash := None, data := None,
                    time := Some (or_else (time (heap s r)) now),
                    tx_id := Some (idCounter s mod MAX_SAFE_INTEGER)\<rparr>),
              tx := tx s @ [r], idCounter := idCounter s mod MAX_SAFE_INTEGER + 1\<rparr>)"
  using assms by (auto simp: addTx_def Let_def createRandomId_def)

lemma ids_cong:
  "tx s' = tx s \<Longrightarrow> (\<forall>t. tx_id (heap s' t) = tx_id (heap s t)) \<Longrightarrow> ids s' = ids s"
  by (simp add: ids_def)

lemma addTx_ids_ok:
  assumes ok: "ids_ok s" and c: "idCounter s < MAX_SAFE_INTEGER" and z: "tx_id (heap s r) \<noteq> Some 0"
  shows "ids_ok (snd (addTx s r now))"
proof (cases "tx_id (heap s r)")
  case None
  have r: "r \<notin> set (tx s)"
    using ok None by (force simp: ids_ok_def ids_def)
  have "map (\<lambda>t. tx_id (if t = r then m else heap s t)) (tx s) = map (\<lambda>t. tx_id (heap s t)) (tx s)" for m
    using r by (intro map_cong) auto
  then have "ids (snd (addTx s r now)) = ids s @ [Some (idCounter s)]"
    using c by (simp add: addTx_without_id None ids_def)
  moreover have "idCounter (snd (addTx s r now)) = idCounter s + 1"
    using c by (simp add: addTx_without_id None)
  ultimately show ?thesis
    using ok by (auto simp: ids_ok_def dest: less_SucI)
next
  case (Some i)
  with z have i: "i \<noteq> 0" by simp
  let ?s = "s\<lparr>heap := (heap s)(r := (heap s r)\<lparr>txHash := None, data := None,
                    time := Some (or_else (time (heap s r)) now)\<rparr>)\<rparr>"
  have "ids (snd (addTx s r now)) = ids ?s"
    unfolding addTx_with_id [OF Some i] by (rule ids_cong) (simp_all add: updateTx_frame)
  moreover have "ids ?s = ids s"
    by (rule ids_cong) simp_all
  moreover have "idCounter (snd (addTx s r now)) = idCounter s"
    unfolding addTx_with_id [OF Some i] by (simp add: updateTx_frame)
  ultimately show ?thesis
    using ok by (simp add: ids_ok_def)
qed

lemma addTx_known_id:
  assumes id: "tx_id (heap s r) = Some i" "i \<noteq> 0" and known: "Some i \<in> set (ids s)"
  shows "\<exists>s' t. addTx s r now = (None, s') \<and> tx s' = tx s \<and> idCounter s' = idCounter s \<and>
            t \<in> set (tx s) \<and> tx_id (heap s t) = Some i \<and>
            status (heap s' t) = Some pending \<and>
            merge_keys (heap s' t) (heap s' r) = heap s' t \<and>
            (t \<noteq> r \<longrightarrow> heap s' t = merge_keys (heap s t) (heap s' r))"
proof -
  let ?m = "(heap s r)\<lparr>txHash := None, data := None, time := Some (or_else (time (heap s r)) now)\<rparr>"
  let ?s = "s\<lparr>heap := (heap s)(r := ?m)\<rparr>"
  have same: "(\<lambda>t. tx_id (heap ?s t) = tx_id (heap ?s r)) = (\<lambda>t. tx_id (heap s t) = Some i)"
    using id by auto
  have "findIndex (\<lambda>t. tx_id (heap s t) = Some i) (tx s) \<noteq> None"
    using known by (auto simp: findIndex_None ids_def)
  then obtain k where k: "findIndex (\<lambda>t. tx_id (heap ?s t) = tx_id (heap ?s r)) (tx ?s) = Some k"
    using same by auto
  with same have k': "findIndex (\<lambda>t. tx_id (heap s t) = Some i) (tx s) = Some k"
    by simp
  from findIndex_Some [OF k'] have t: "k < length (tx s)" "tx_id (heap s (tx s ! k)) = Some i"
    by simp_all
  let ?t = "tx s ! k"
  let ?m1 = "?m\<lparr>status := Some pending, lastUpdate := Some now\<rparr>"
  let ?s' = "?s\<lparr>heap := (heap ?s)(r := ?m1,
               ?t := merge_keys (if ?t = r then ?m1 else heap ?s ?t) ?m1)\<rparr>"
  have eq: "addTx s r now = (None, ?s')"
    unfolding addTx_with_id [OF id] using updateTx_found [OF k] by simp
  have frame: "tx ?s' = tx s" "idCounter ?s' = idCounter s"
    by simp_all
  have mem: "?t \<in> set (tx s)"
    using t(1) by simp
  have merged: "status (heap ?s' ?t) = Some pending \<and>
        merge_keys (heap ?s' ?t) (heap ?s' r) = heap ?s' ?t \<and>
        (?t \<noteq> r \<longrightarrow> heap ?s' ?t = merge_keys (heap s ?t) (heap ?s' r))"
  proof (cases "?t = r")
    case True
    then show ?thesis by simp
  next
    case False
    then have h: "heap ?s' r = ?m1" "heap ?s' ?t = merge_keys (heap s ?t) ?m1"
      by simp_all
    have "status (merge_keys (heap s ?t) ?m1) = Some pending"
      by (simp add: merge_keys_def keep_def)
    then show ?thesis
      unfolding h using False by (simp only: merge_keys_idem) simp
  qed
  show ?thesis
    using eq frame mem t(2) merged by blast
qed

text \<open>
  C4, as amended. \<^verbatim>\<open>addTx\<close> of an object whose id is not \<open>0\<close> and is the id of a stored
  record merges the keys of the object into a stored record with that id, which becomes
  \<open>pending\<close>, and leaves the array of records and the counter as they are. \<^verbatim>\<open>addTx\<close> of an object without
  id gives it the next id of the counter (the counter modulo \<^verbatim>\<open>MAX_SAFE_INTEGER\<close>) and
  appends exactly this object; if the id so given is not \<open>0\<close>, a second \<^verbatim>\<open>addTx\<close> of the
  same object appends nothing. \<^verbatim>\<open>addTx\<close> of an object that has an id other than \<open>0\<close>
  never appends. If every stored record has an id, these ids are pairwise distinct and
  below the counter, the counter has not reached \<^verbatim>\<open>MAX_SAFE_INTEGER\<close>, and the object
  does not carry the id \<open>0\<close>, then all this holds after \<^verbatim>\<open>addTx\<close> as well. (An id
  \<open>0\<close> is falsy: the object that carries it is appended again under a new id.)
\<close>

theorem addTx_creates_or_updates:
  "(tx_id (heap s r) = Some i \<and> i \<noteq> 0 \<and> Some i \<in> set (ids s) \<longrightarrow>
      (\<exists>s' t. addTx s r now = (None, s') \<and> tx s' = tx s \<and> idCounter s' = idCounter s \<and>
            t \<in> set (tx s) \<and> tx_id (heap s t) = Some i \<and>
            status (heap s' t) = Some pending \<and>
            merge_keys (heap s' t) (heap s' r) = heap s' t \<and>
            (t \<noteq> r \<longrightarrow> heap s' t = merge_keys (heap s t) (heap s' r)))) \<and>
   (tx_id (heap s r) = None \<longrightarrow>
      (\<exists>s'. addTx s r now = (None, s') \<and> tx s' = tx s @ [r] \<and>
            tx_id (heap s' r) = Some (idCounter s mod MAX_SAFE_INTEGER) \<and>
            (\<forall>t. t \<noteq> r \<longrightarrow> heap s' t = heap s t))) \<and>
   (tx_id (heap s r) = None \<and> idCounter s mod MAX_SAFE_INTEGER \<noteq> 0 \<longrightarrow>
      tx (snd (addTx (snd (addTx s r now)) r now')) = tx s @ [r]) \<and>
   (tx_id (heap s r) = Some i \<and> i \<noteq> 0 \<longrightarrow> tx (snd (addTx s r now)) = tx s) \<and>
   (ids_ok s \<and> idCounter s < MAX_SAFE_INTEGER \<and> tx_id (heap s r) \<noteq> Some 0 \<longrightarrow>
      ids_ok (snd (addTx s r now)))"
proof (intro conjI impI)
  assume "tx_id (heap s r) = Some i \<and> i \<noteq> 0 \<and> Some i \<in> set (ids s)"
  then show "\<exists>s' t. addTx s r now = (None, s') \<and> tx s' = tx s \<and> idCounter s' = idCounter s \<and>
            t \<in> set (tx s) \<and> tx_id (heap s t) = Some i \<and>
            status (heap s' t) = Some pending \<and>
            merge_keys (heap s' t) (heap s' r) = heap s' t \<and>
            (t \<noteq> r \<longrightarrow> heap s' t = merge_keys (heap s t) (heap s' r))"
    using addTx_known_id by blast
next
  assume "tx_id (heap s r) = None"
  then show "\<exists>s'. addTx s r now = (None, s') \<and> tx s' = tx s @ [r] \<and>
            tx_id (heap s' r) = Some (idCounter s mod MAX_SAFE_INTEGER) \<and>
            (\<forall>t. t \<noteq> r \<longrightarrow> heap s' t = heap s t)"
    by (simp add: addTx_without_id)
next
  assume a: "tx_id (heap s r) = None \<and> idCounter s mod MAX_SAFE_INTEGER \<noteq> 0"
  let ?s = "snd (addTx s r now)"
  have "tx_id (heap ?s r) = Some (idCounter s mod MAX_SAFE_INTEGER)" "tx ?s = tx s @ [r]"
    using a by (simp_all add: addTx_without_id)
  then show "tx (snd (addTx ?s r now')) = tx s @ [r]"
    using a by (simp add: addTx_with_id updateTx_frame)
next
  assume "tx_id (heap s r) = Some i \<and> i \<noteq> 0"
  then show "tx (snd (addTx s r now)) = tx s"
    by (simp add: addTx_with_id updateTx_frame)
next
  assume "ids_ok s \<and> idCounter s < MAX_SAFE_INTEGER \<and> tx_id (heap s r) \<noteq> Some 0"
  then show "ids_ok (snd (addTx s r now))"
    by (simp add: addTx_ids_ok)
qed

theorem addTx_creates_or_updates_witness:
  "ids_ok manager1 \<and>
   (\<exists>s'. addTx manager1 0 20 = (None, s') \<and> tx s' = [0] \<and> status (heap s' 0) = Some pending) \<and>
   (\<exists>s'. addTx manager1 1 20 = (None, s') \<and> tx s' = [0, 1] \<and> tx_id (heap s' 1) = Some 2) \<and>
   tx (snd (addTx (snd (addTx manager1 1 20)) 1 30)) = [0, 1] \<and>
   ids_ok (snd (addTx manager1 0 20)) \<and> ids_ok (snd (addTx manager1 1 20))"
proof -
  have h: "tx_id (heap manager1 0) = Some 1" "tx_id (heap manager1 1) = None"
    "tx manager1 = [0]" "idCounter manager1 = 2"
    by (simp_all add: manager1_def new_TransactionManager_def txMeta0_def new_TransactionObject_def)
  have i: "ids manager1 = [Some 1]"
    by (simp add: ids_def h)
  have ok: "ids_ok manager1"
    by (simp add: ids_ok_def i h)
  have c: "idCounter manager1 < MAX_SAFE_INTEGER" "idCounter manager1 mod MAX_SAFE_INTEGER = 2"
    by (simp_all add: h MAX_SAFE_INTEGER_def)
  from addTx_creates_or_updates [of manager1 0 1 20 30] h i ok c
  have a: "\<exists>s'. addTx manager1 0 20 = (None, s') \<and> tx s' = [0] \<and> status (heap s' 0) = Some pending"
    and b: "ids_ok (snd (addTx manager1 0 20))"
    by auto
  from addTx_creates_or_updates [of manager1 1 i 20 30] h ok c
  have "\<exists>s'. addTx manager1 1 20 = (None, s') \<and> tx s' = [0, 1] \<and> tx_id (heap s' 1) = Some 2"
    and "tx (snd (addTx (snd (addTx manager1 1 20)) 1 30)) = [0, 1]"
    and "ids_ok (snd (addTx manager1 1 20))"
    by auto
  with ok a b show ?thesis by blast
qed

text \<open>
  The claim as stated fails for an id that no stored record has: nothing is appended
  and no id is allocated.
\<close>

theorem addTx_unknown_id_counterexample:
  "fst (addTx manager7 0 1) = Some TypeError \<and> tx (snd (addTx manager7 0 1)) = [] \<and>
   tx_id (heap (snd (addTx manager7 0 1)) 0) = Some 7 \<and> idCounter (snd (addTx manager7 0 1)) = 0"
  by (simp add: addTx_def manager7_def new_TransactionManager_def txMeta0_def
      new_TransactionObject_def getFilteredTxList_def updateTx_def Let_def)




















lemmas run_defs = manager_new_def new_TransactionManager_def txMeta0_def options0_def
  new_TransactionObject_def attempt_timeout_def attempt_mined_def timeout_message_def
  submitTx_def submitTx_getNonce_def submitTx_send_def addTx_def createRandomId_def
  MAX_SAFE_INTEGER_def lookupMutex_def acquire_def releaseNonceLock_def
  getNonce_body_def getHighestLocallyConfirmed_def getConfirmedTransactions_def
  getSubmittedTransactions_def getPendingTransactions_def filterTxByStatus_def
  getFilteredTxList_def getTxsByMetaData_def getHighestNonce_def getHighestContinuousFrom_def
  continuousFrom.simps or_else_def awaiting_def awaitLimit_def awaitTime_def waitQueue.simps
  claimNonce_def updateTx_def merge_keys_def keep_def finalizeTx_def checkError_def
  push_def add_def truncate_fla_def new_FixedLengthArray_def Let_def
  sendWithRetry_def sendWithRetry_loop.simps retry_once_def retry_once_verified_def
  timeout_then_mined_def set_gasPrice_def delete_data_def next_attempt_def updateNonce_def
  sendWithRetry_updateTx_def calculateGasExpenses_def



lemma updateTx_self:
  assumes "updateTx s r st now = (None, s')"
  shows "heap s' r = (heap s r)\<lparr>status := Some st, lastUpdate := Some now\<rparr>"
proof (cases "findIndex (\<lambda>t. tx_id (heap s t) = tx_id (heap s r)) (tx s)")
  case None
  then show ?thesis using assms by (simp add: updateTx_not_found)
next
  case (Some k)
  show ?thesis
    using assms unfolding updateTx_found [OF Some] by (cases "tx s ! k = r") auto
qed

text \<open>What the claim writes: a nonce in the options that is not \<open>0\<close> wins over \<^verbatim>\<open>nextNonce\<close>.\<close>

lemma claimNonce_nonce:
  assumes "claimNonce s r nextNonce lockId now = (None, s')"
  shows "nonce (heap s' r) = Some (or_else (options_nonce (options (heap s r))) nextNonce) \<and>
         options_nonce (options (heap s' r)) = nonce (heap s' r) \<and>
         status (heap s' r) = Some submitted"
proof -
  let ?n = "or_else (options_nonce (options (heap s r))) nextNonce"
  let ?s1 = "s\<lparr>heap := (heap s)(r := (heap s r)\<lparr>options := (options (heap s r))\<lparr>options_nonce := Some ?n\<rparr>,
                 nonce := Some ?n\<rparr>)\<rparr>"
  from assms obtain s2 where u: "updateTx ?s1 r submitted now = (None, s2)"
    and s': "s' = releaseNonceLock s2 lockId"
    by (auto simp: claimNonce_def Let_def split: prod.splits option.splits)
  from updateTx_self [OF u] s' show ?thesis
    by (simp add: releaseNonceLock_def)
qed

text \<open>
  C9, at the input where the code departs from the claim. The caller supplies the nonce
  \<open>0\<close> while a transaction of the address with nonce \<open>0\<close> is in flight and the network
  count is \<open>0\<close>: \<^verbatim>\<open>getNonce\<close> returns \<open>1\<close>, and because \<open>0\<close> is falsy in
  \<^verbatim>\<open>options.nonce || nextNonce\<close> the record and the options that go to \<^verbatim>\<open>send\<close> carry
  the nonce \<open>1\<close>.
\<close>

theorem caller_nonce_zero_is_replaced:
  "options_nonce (options (heap manager_stuck 0)) = Some 0 \<and>
   map_option (\<lambda>(res, s1). (res,
       nonce (heap (snd (claimNonce s1 0 1 ''0xA'' 2000)) 0),
       options_nonce (options (heap (snd (claimNonce s1 0 1 ''0xA'' 2000)) 0)),
       status (heap (snd (claimNonce s1 0 1 ''0xA'' 2000)) 0)))
     (submitTx_getNonce (\<lambda>a. a) manager_stuck 0 attempt_mined) =
   Some (Returned (1, ''0xA''), Some 1, Some 1, Some submitted)"
  by (simp add: manager_stuck_def run_defs del: set_filter)

text \<open>
  C6, at the input where the code departs from the claim. The first transaction of an
  account gets the nonce \<open>0\<close> and runs into the mining timeout; the \<^verbatim>\<open>error\<close> event
  puts \<open>0\<close> into the exclusion set. \<^verbatim>\<open>updateNonce\<close> hands the nonce \<open>0\<close> to the next
  attempt, where it is falsy, and the second submission goes out with the nonce \<open>1\<close>.
\<close>

theorem timeout_of_nonce_zero_not_reused:
  "map_option (\<lambda>(res, s, tr). (res, tr))
     (sendWithRetry (\<lambda>a. a) manager_new 0 retry_once (\<lambda>k. 3) timeout_then_mined) =
   Some (Returned None,
         [Submit (Some 0) (Some 3) (Some timeout_message), Verify False, Sleep 10000,
          Verify False, Submit (Some 1) (Some 3) None])"
  by (simp add: run_defs)

lemma waitQueue_returns_raw:
  assumes "waitQueue obs k slept = Some y"
  shows "k \<le> fst y \<and> awaiting (obs (fst y)) < awaitLimit \<and>
   (\<forall>i. k \<le> i \<and> i < fst y \<longrightarrow> awaitLimit \<le> awaiting (obs i)) \<and>
   snd y = slept + (fst y - k) * (awaitTime * 1000)"
proof (rule waitQueue.raw_induct [where P = "\<lambda>obs k slept y.
   k \<le> fst y \<and> awaiting (obs (fst y)) < awaitLimit \<and>
   (\<forall>i. k \<le> i \<and> i < fst y \<longrightarrow> awaitLimit \<le> awaiting (obs i)) \<and>
   snd y = slept + (fst y - k) * (awaitTime * 1000)", OF _ assms])
  fix w :: "(nat \<Rightarrow> TransactionManager) \<Rightarrow> nat \<Rightarrow> nat \<Rightarrow> (nat \<times> nat) option"
  fix obs k slept y
  assume IH: "\<And>obs k slept y. w obs k slept = Some y \<Longrightarrow>
     k \<le> fst y \<and> awaiting (obs (fst y)) < awaitLimit \<and>
     (\<forall>i. k \<le> i \<and> i < fst y \<longrightarrow> awaitLimit \<le> awaiting (obs i)) \<and>
     snd y = slept + (fst y - k) * (awaitTime * 1000)"
  assume eq: "(if awaitLimit \<le> awaiting (obs k)
      then w obs (k + 1) (slept + awaitTime * 1000) else Some (k, slept)) = Some y"
  show "k \<le> fst y \<and> awaiting (obs (fst y)) < awaitLimit \<and>
     (\<forall>i. k \<le> i \<and> i < fst y \<longrightarrow> awaitLimit \<le> awaiting (obs i)) \<and>
     snd y = slept + (fst y - k) * (awaitTime * 1000)"
  proof (cases "awaitLimit \<le> awaiting (obs k)")
    case True
    with eq have "w obs (k + 1) (slept + awaitTime * 1000) = Some y"
      by simp
    from IH [OF this] have ih: "k + 1 \<le> fst y" "awaiting (obs (fst y)) < awaitLimit"
      "\<forall>i. k + 1 \<le> i \<and> i < fst y \<longrightarrow> awaitLimit \<le> awaiting (obs i)"
      "snd y = slept + awaitTime * 1000 + (fst y - (k + 1)) * (awaitTime * 1000)"
      by simp_all
    have "awaitLimit \<le> awaiting (obs i)" if "k \<le> i" "i < fst y" for i
    proof (cases "i = k")
      case True
      with \<open>awaitLimit \<le> awaiting (obs k)\<close> show ?thesis by simp
    next
      case False
      with that ih(3) show ?thesis by simp
    qed
    moreover have "fst y - k = Suc (fst y - (k + 1))"
      using ih(1) by simp
    ultimately show ?thesis
      using ih by simp
  next
    case False
    with eq show ?thesis by auto
  qed
qed

lemma waitQueue_returns:
  assumes "waitQueue obs k slept = Some (j, t)"
  shows "k \<le> j \<and> awaiting (obs j) < awaitLimit \<and>
         (\<forall>i. k \<le> i \<and> i < j \<longrightarrow> awaitLimit \<le> awaiting (obs i)) \<and>
         t = slept + (j - k) * (awaitTime * 1000)"
  using waitQueue_returns_raw [OF assms] by simp

lemma waitQueue_progress:
  assumes "awaiting (obs j) < awaitLimit" "k \<le> j"
  shows "waitQueue obs k slept \<noteq> None"
  using assms
proof (induction "j - k" arbitrary: k slept)
  case 0
  then show ?case by (subst waitQueue.simps) simp
next
  case (Suc d)
  show ?case
  proof (cases "awaitLimit \<le> awaiting (obs k)")
    case True
    from Suc have "d = j - (k + 1)" "k + 1 \<le> j" by simp_all
    from Suc.hyps(1) [OF this(1) Suc.prems(1) this(2)] True show ?thesis
      by (subst waitQueue.simps) simp
  next
    case False
    then show ?thesis by (subst waitQueue.simps) simp
  qed
qed

lemma submitTx_getNonce_new:
  assumes "tx_id (heap s r) = None" "network a = Inr net"
    and "addr = toChecksum (options_from (options (heap s r)))" "lockMap s addr \<noteq> Some True"
  shows "\<exists>s1. submitTx_getNonce toChecksum s r a =
             Some (Returned (getNonce_body toChecksum s1 addr net, addr), s1) \<and>
           tx s1 = tx s @ [r] \<and> (\<forall>t. t \<noteq> r \<longrightarrow> heap s1 t = heap s t) \<and>
           status (heap s1 r) = status (heap s r) \<and> tx_from (heap s1 r) = tx_from (heap s r) \<and>
           nonceInUse s1 = nonceInUse s"
  using assms
  by (auto simp: submitTx_getNonce_def addTx_without_id Let_def lookupMutex_def acquire_def
      split: option.splits)

lemma manager100_facts:
  "tx manager100 = [0..<100]" "nonceInUse manager100 = Map.empty" "lockMap manager100 = Map.empty"
  "\<And>r. r < 100 \<Longrightarrow> status (heap manager100 r) = Some submitted \<and> tx_from (heap manager100 r) = ''0xB''"
  "status (heap manager100 100) = None" "tx_id (heap manager100 100) = None"
  "options_from (options (heap manager100 100)) = ''0xA''" "txType (heap manager100 100) = send"
  by (simp_all add: manager100_def new_TransactionManager_def txMeta0_def options0_def
      new_TransactionObject_def)

lemma awaiting_manager100: "awaiting manager100 = 100"
proof -
  have "filter (\<lambda>r. status (heap manager100 r) = Some submitted) [0..<100] = [0..<100]"
    by (rule filter_True) (simp add: manager100_facts)
  then show ?thesis
    by (simp add: awaiting_def getSubmittedTransactions_def filterTxByStatus_None manager100_facts)
qed

lemma awaiting_manager_new: "awaiting manager_new = 0"
  by (simp add: awaiting_def getSubmittedTransactions_def filterTxByStatus_None manager_new_def
      new_TransactionManager_def)

text \<open>The submission of the object \<open>100\<close> gets its nonce while one hundred records are submitted.\<close>

lemma manager100_getNonce:
  "\<exists>s1. submitTx_getNonce (\<lambda>a. a) manager100 100 attempt_mined = Some (Returned (0, ''0xA''), s1) \<and>
        awaiting s1 = 100"
proof -
  have net: "network attempt_mined = Inr 0"
    by (simp add: attempt_mined_def)
  from submitTx_getNonce_new [of manager100 100 attempt_mined 0 "''0xA''" "\<lambda>a. a"]
  obtain s1 where run: "submitTx_getNonce (\<lambda>a. a) manager100 100 attempt_mined =
             Some (Returned (getNonce_body (\<lambda>a. a) s1 ''0xA'' 0, ''0xA''), s1)"
    and s1: "tx s1 = [0..<100] @ [100]" "\<forall>t. t \<noteq> 100 \<longrightarrow> heap s1 t = heap manager100 t"
      "status (heap s1 100) = None" "nonceInUse s1 = Map.empty"
    using net by (auto simp: manager100_facts)
  have old: "status (heap s1 t) = Some submitted \<and> tx_from (heap s1 t) = ''0xB''" if "t < 100" for t
    using that s1(2) manager100_facts(4) by simp
  have none: "filterTxByStatus s1 (Some ''0xA'') st = []" for st
    using old s1(3) by (auto simp: filterTxByStatus_Some s1(1) filter_empty_conv)
  have "getNonce_body (\<lambda>a. a) s1 ''0xA'' 0 = 0"
    by (simp add: getNonce_body_eq getSubmittedTransactions_def getPendingTransactions_def none
        getHighestLocallyConfirmed_def getConfirmedTransactions_def getHighestNonce_def
        getHighestContinuousFrom_def s1(4) continuousFrom.simps)
  moreover have "filter (\<lambda>r. status (heap s1 r) = Some submitted) [0..<100] = [0..<100]"
    by (rule filter_True) (simp add: old)
  then have "awaiting s1 = 100"
    by (simp add: awaiting_def getSubmittedTransactions_def filterTxByStatus_None s1)
  ultimately show ?thesis
    using run by simp
qed

text \<open>
  C3, as amended. \<^verbatim>\<open>_waitQueue\<close> lets its caller through only at a check that finds
  fewer than \<open>awaitLimit = 100\<close> submitted records; every earlier check found at least
  \<open>100\<close>, and the checks are one sleep of \<open>awaitTime * 1000 = 60000\<close> milliseconds apart.
  It does return once a check finds fewer than \<open>100\<close>. A \<^verbatim>\<open>submitTx\<close> that has its
  nonce from \<^verbatim>\<open>getNonce\<close> and finds \<open>100\<close> submitted records does not go on to fix the
  nonce, mark the record submitted and send while no other call runs. (The nonce is
  selected by \<^verbatim>\<open>getNonce\<close> before \<^verbatim>\<open>_waitQueue\<close> is called.)
\<close>

theorem queue_lets_through_below_limit:
  "(waitQueue obs 0 0 = Some (j, t) \<longrightarrow>
      awaiting (obs j) < awaitLimit \<and> (\<forall>i<j. awaitLimit \<le> awaiting (obs i)) \<and> t = j * 60000) \<and>
   ((\<exists>j. awaiting (obs j) < awaitLimit) \<longrightarrow> waitQueue obs 0 0 \<noteq> None) \<and>
   (txType (heap s r) = send \<and>
    submitTx_getNonce toChecksum s r a = Some (Returned (n, lockId), s1) \<and>
    awaitLimit \<le> awaiting s1 \<longrightarrow> submitTx toChecksum s r a = None) \<and>
   awaitLimit = 100"
proof -
  have 1: "awaiting (obs j) < awaitLimit \<and> (\<forall>i<j. awaitLimit \<le> awaiting (obs i)) \<and> t = j * 60000"
    if "waitQueue obs 0 0 = Some (j, t)"
    using waitQueue_returns [OF that] by (simp add: awaitTime_def)
  have 2: "waitQueue obs 0 0 \<noteq> None" if "\<exists>j. awaiting (obs j) < awaitLimit"
    using that waitQueue_progress [of obs _ 0 0] by blast
  have 3: "submitTx toChecksum s r a = None"
    if a: "txType (heap s r) = send \<and>
      submitTx_getNonce toChecksum s r a = Some (Returned (n, lockId), s1) \<and>
      awaitLimit \<le> awaiting s1"
  proof -
    have "waitQueue (\<lambda>k. s1) 0 0 = None"
    proof (cases "waitQueue (\<lambda>k. s1) 0 0")
      case None
      then show ?thesis .
    next
      case (Some w)
      obtain j t where "w = (j, t)" by (cases w)
      with Some waitQueue_returns [of "\<lambda>k. s1" 0 0 j t] a show ?thesis by simp
    qed
    with a show ?thesis
      by (simp add: submitTx_def)
  qed
  have 4: "awaitLimit = 100"
    by (simp add: awaitLimit_def)
  from 1 2 3 4 show ?thesis by blast
qed

theorem queue_lets_through_below_limit_witness:
  "waitQueue crowded_then_free 0 0 = Some (2, 120000) \<and>
   awaitLimit \<le> awaiting (crowded_then_free 1) \<and> awaiting (crowded_then_free 2) < awaitLimit \<and>
   submitTx (\<lambda>a. a) manager100 100 attempt_mined = None"
proof -
  have obs: "awaiting (crowded_then_free k) = (if k < 2 then 100 else 0)" for k
    by (simp add: crowded_then_free_def awaiting_manager100 awaiting_manager_new)
  have "waitQueue crowded_then_free 0 0 = waitQueue crowded_then_free 1 60000"
    by (subst waitQueue.simps) (simp add: obs awaitLimit_def awaitTime_def)
  also have "\<dots> = waitQueue crowded_then_free 2 120000"
    by (subst waitQueue.simps) (simp add: obs awaitLimit_def awaitTime_def numeral_2_eq_2)
  also have "\<dots> = Some (2, 120000)"
    by (subst waitQueue.simps) (simp add: obs awaitLimit_def awaitTime_def)
  finally have run: "waitQueue crowded_then_free 0 0 = Some (2, 120000)" .
  obtain s1 where g: "submitTx_getNonce (\<lambda>a. a) manager100 100 attempt_mined =
      Some (Returned (0, ''0xA''), s1)" "awaiting s1 = 100"
    using manager100_getNonce by blast
  have free: "\<exists>j. awaiting (crowded_then_free j) < awaitLimit"
    by (rule exI [of _ 2]) (simp add: obs awaitLimit_def)
  show ?thesis
    using queue_lets_through_below_limit
      [of crowded_then_free 2 120000 manager100 100 "\<lambda>a. a" attempt_mined 0 "''0xA''" s1]
      run g free manager100_facts(8)
    by (simp add: awaitLimit_def obs)
qed

text \<open>
  The claim as stated fails: with one hundred records submitted, the further submission
  of the object \<open>100\<close> is given its nonce by \<^verbatim>\<open>getNonce\<close>, and one hundred records are
  still submitted then.
\<close>

theorem nonce_selected_before_queue_counterexample:
  "awaiting manager100 = 100 \<and>
   map_option (\<lambda>(res, s1). (res, awaiting s1))
     (submitTx_getNonce (\<lambda>a. a) manager100 100 attempt_mined) =
   Some (Returned (0, ''0xA''), 100)"
  using manager100_getNonce awaiting_manager100 by auto

lemma merge_keys_sel:
  "tx_id (merge_keys t m) = keep (tx_id m) (tx_id t)"
  "tx_from (merge_keys t m) = tx_from m"
  "options (merge_keys t m) = options m"
  "txType (merge_keys t m) = txType m"
  "status (merge_keys t m) = keep (status m) (status t)"
  "nonce (merge_keys t m) = keep (nonce m) (nonce t)"
  by (simp_all add: merge_keys_def)

lemma keep_eq_None [simp]: "keep new old = None \<longleftrightarrow> new = None \<and> old = None"
  by (cases new) (simp_all add: keep_def)

lemma keep_Some [simp]: "keep (Some v) old = Some v"
  by (simp add: keep_def)

text \<open>Every object after \<^verbatim>\<open>updateTx\<close>: untouched, the argument with its new status, or merged.\<close>

lemma updateTx_heap:
  "heap (snd (updateTx s r st now)) t = heap s t \<or>
   (t = r \<and> heap (snd (updateTx s r st now)) t = (heap s r)\<lparr>status := Some st, lastUpdate := Some now\<rparr>) \<or>
   (t \<noteq> r \<and> heap (snd (updateTx s r st now)) t =
      merge_keys (heap s t) ((heap s r)\<lparr>status := Some st, lastUpdate := Some now\<rparr>))"
proof (cases "findIndex (\<lambda>t. tx_id (heap s t) = tx_id (heap s r)) (tx s)")
  case None
  then show ?thesis by (simp add: updateTx_not_found)
next
  case (Some k)
  show ?thesis
    unfolding updateTx_found [OF Some] by (cases "tx s ! k = r") auto
qed

lemma updateTx_nonces_kept: "nonces_kept s (snd (updateTx s r st now))"
  unfolding nonces_kept_def
proof (intro allI impI)
  fix t assume "nonce (heap s t) \<noteq> None"
  with updateTx_heap [of s r st now t] show "nonce (heap (snd (updateTx s r st now)) t) \<noteq> None"
    by (elim disjE conjE) (simp_all add: merge_keys_sel)
qed

text \<open>
  A status other than \<open>confirmed\<close> confirms nothing; the status \<open>confirmed\<close> confirms only
  objects that then carry the nonce of the argument.
\<close>

lemma updateTx_confirmed:
  assumes "confirmed_have_nonce s" "st = confirmed \<longrightarrow> nonce (heap s r) \<noteq> None"
  shows "confirmed_have_nonce (snd (updateTx s r st now))"
  unfolding confirmed_have_nonce_def
proof (intro allI impI)
  fix t assume c: "status (heap (snd (updateTx s r st now)) t) = Some confirmed"
  from updateTx_heap [of s r st now t]
  consider "heap (snd (updateTx s r st now)) t = heap s t"
    | "t = r" "heap (snd (updateTx s r st now)) t = (heap s r)\<lparr>status := Some st, lastUpdate := Some now\<rparr>"
    | "heap (snd (updateTx s r st now)) t =
         merge_keys (heap s t) ((heap s r)\<lparr>status := Some st, lastUpdate := Some now\<rparr>)"
    by blast
  then show "nonce (heap (snd (updateTx s r st now)) t) \<noteq> None"
  proof cases
    case 1
    with c assms(1) show ?thesis by (simp add: confirmed_have_nonce_def)
  next
    case 2
    with c assms(2) show ?thesis by simp
  next
    case 3
    with c have "st = confirmed" by (simp add: merge_keys_sel)
    with 3 assms(2) show ?thesis by (simp add: merge_keys_sel)
  qed
qed

lemma nonces_kept_refl [simp]: "nonces_kept s s"
  by (simp add: nonces_kept_def)

lemma nonces_kept_trans: "nonces_kept s s' \<Longrightarrow> nonces_kept s' s'' \<Longrightarrow> nonces_kept s s''"
  by (simp add: nonces_kept_def)

text \<open>A change that leaves every nonce and every status alone.\<close>

lemma same_nonce_status:
  assumes "\<forall>t. nonce (heap s' t) = nonce (heap s t) \<and> status (heap s' t) = status (heap s t)"
  shows "nonces_kept s s' \<and> confirmed_have_nonce s' = confirmed_have_nonce s"
  using assms by (simp add: nonces_kept_def confirmed_have_nonce_def)

lemma addTx_pre_same:
  "\<forall>t. nonce (heap (s\<lparr>heap := (heap s)(r := (heap s r)\<lparr>txHash := None, data := None,
                    time := Some v\<rparr>)\<rparr>) t) = nonce (heap s t) \<and>
       status (heap (s\<lparr>heap := (heap s)(r := (heap s r)\<lparr>txHash := None, data := None,
                    time := Some v\<rparr>)\<rparr>) t) = status (heap s t)"
  by simp

lemma addTx_nonces:
  "nonces_kept s (snd (addTx s r now)) \<and>
   (confirmed_have_nonce s \<longrightarrow> confirmed_have_nonce (snd (addTx s r now)))"
proof (cases "tx_id (heap s r) = None \<or> tx_id (heap s r) = Some 0")
  case True
  then show ?thesis
    by (simp add: addTx_without_id nonces_kept_def confirmed_have_nonce_def)
next
  case False
  then obtain i where i: "tx_id (heap s r) = Some i" "i \<noteq> 0" by auto
  let ?s = "s\<lparr>heap := (heap s)(r := (heap s r)\<lparr>txHash := None, data := None,
                    time := Some (or_else (time (heap s r)) now)\<rparr>)\<rparr>"
  from same_nonce_status [OF addTx_pre_same, of s r]
  have pre: "nonces_kept s ?s" "confirmed_have_nonce ?s = confirmed_have_nonce s"
    by simp_all
  have "nonces_kept s (snd (updateTx ?s r pending now))"
    by (rule nonces_kept_trans [OF pre(1) updateTx_nonces_kept])
  moreover have "confirmed_have_nonce (snd (updateTx ?s r pending now))" if "confirmed_have_nonce s"
    by (rule updateTx_confirmed) (simp_all add: pre that)
  ultimately show ?thesis
    by (simp add: addTx_with_id [OF i])
qed

lemma lock_heap [simp]:
  "heap (lookupMutex s a) = heap s" "heap (acquire s a) = heap s" "heap (releaseNonceLock s a) = heap s"
  by (simp_all add: lookupMutex_def acquire_def releaseNonceLock_def split: option.splits)

lemma lock_nonces [simp]:
  "nonces_kept s (lookupMutex s' a) = nonces_kept s s'"
  "nonces_kept s (acquire s' a) = nonces_kept s s'"
  "nonces_kept s (releaseNonceLock s' a) = nonces_kept s s'"
  "confirmed_have_nonce (lookupMutex s a) = confirmed_have_nonce s"
  "confirmed_have_nonce (acquire s a) = confirmed_have_nonce s"
  "confirmed_have_nonce (releaseNonceLock s a) = confirmed_have_nonce s"
  by (simp_all add: nonces_kept_def confirmed_have_nonce_def)

lemma claimNonce_nonces:
  "nonces_kept s (snd (claimNonce s r n lockId now)) \<and>
   nonce (heap (snd (claimNonce s r n lockId now)) r) \<noteq> None \<and>
   (confirmed_have_nonce s \<longrightarrow> confirmed_have_nonce (snd (claimNonce s r n lockId now)))"
proof -
  let ?n = "or_else (options_nonce (options (heap s r))) n"
  let ?s1 = "s\<lparr>heap := (heap s)(r := (heap s r)\<lparr>options := (options (heap s r))\<lparr>options_nonce := Some ?n\<rparr>,
                 nonce := Some ?n\<rparr>)\<rparr>"
  let ?s2 = "snd (updateTx ?s1 r submitted now)"
  have k1: "nonces_kept s ?s1" "nonce (heap ?s1 r) \<noteq> None"
    by (simp_all add: nonces_kept_def)
  have c1: "confirmed_have_nonce ?s1" if "confirmed_have_nonce s"
    using that by (simp add: confirmed_have_nonce_def)
  have k2: "nonces_kept ?s1 ?s2"
    by (rule updateTx_nonces_kept)
  have c2: "confirmed_have_nonce ?s2" if "confirmed_have_nonce s"
    by (rule updateTx_confirmed) (simp_all add: c1 that)
  have eq: "snd (claimNonce s r n lockId now) = ?s2 \<or>
            snd (claimNonce s r n lockId now) = releaseNonceLock ?s2 lockId"
    by (auto simp: claimNonce_def Let_def split: prod.splits option.splits)
  have "nonces_kept s ?s2" "nonce (heap ?s2 r) \<noteq> None"
    using k1 k2 by (auto simp: nonces_kept_def)
  with c2 eq show ?thesis
    by auto
qed

lemma handler_same:
  "\<forall>t. nonce (heap (handler toChecksum s r ev) t) = nonce (heap s t) \<and>
       status (heap (handler toChecksum s r ev) t) = status (heap s t)"
  by (cases ev) (simp_all add: calculateGasExpenses_def checkError_def Let_def)

lemma handler_nonces:
  "nonces_kept s (handler toChecksum s r ev) \<and>
   confirmed_have_nonce (handler toChecksum s r ev) = confirmed_have_nonce s"
  by (rule same_nonce_status [OF handler_same])

lemma finalizeTx_nonces:
  "nonces_kept s (snd (finalizeTx s r err now)) \<and>
   (confirmed_have_nonce s \<and> nonce (heap s r) \<noteq> None \<longrightarrow>
      confirmed_have_nonce (snd (finalizeTx s r err now)))"
  by (simp add: finalizeTx_def updateTx_nonces_kept updateTx_confirmed)

lemma retry_same:
  "\<forall>t. nonce (heap (delete_data s r) t) = nonce (heap s t) \<and>
       status (heap (delete_data s r) t) = status (heap s t)"
  "\<forall>t. nonce (heap (next_attempt s r message) t) = nonce (heap s t) \<and>
       status (heap (next_attempt s r message) t) = status (heap s t)"
  "\<forall>t. nonce (heap (set_gasPrice s r g) t) = nonce (heap s t) \<and>
       status (heap (set_gasPrice s r g) t) = status (heap s t)"
  by (simp_all add: delete_data_def next_attempt_def set_gasPrice_def)

lemma retry_nonces:
  "nonces_kept s (delete_data s r)" "confirmed_have_nonce (delete_data s r) = confirmed_have_nonce s"
  "nonces_kept s (next_attempt s r message)"
  "confirmed_have_nonce (next_attempt s r message) = confirmed_have_nonce s"
  "nonces_kept s (set_gasPrice s r g)" "confirmed_have_nonce (set_gasPrice s r g) = confirmed_have_nonce s"
  using same_nonce_status [OF retry_same(1), of s r] same_nonce_status [OF retry_same(2), of s r message]
    same_nonce_status [OF retry_same(3), of s r g]
  by simp_all

lemma sendWithRetry_updateTx_nonces:
  "nonces_kept s (snd (sendWithRetry_updateTx s r now)) \<and>
   (confirmed_have_nonce s \<and> nonce (heap s r) \<noteq> None \<longrightarrow>
      confirmed_have_nonce (snd (sendWithRetry_updateTx s r now)))"
proof -
  have "snd (sendWithRetry_updateTx s r now) = s \<or>
        snd (sendWithRetry_updateTx s r now) = snd (updateTx s r confirmed now)"
    by (auto simp: sendWithRetry_updateTx_def split: prod.splits option.splits)
  then show ?thesis
    using updateTx_nonces_kept [of s r confirmed now] updateTx_confirmed [of s confirmed r now]
    by auto
qed

lemma sent_step:
  assumes "sent_have_nonce c" "nonces_kept (mgr c) s'"
    and "pc' = Sending \<or> (\<exists>err. pc' = Settled err) \<longrightarrow> nonce (heap s' r) \<noteq> None"
  shows "sent_have_nonce \<lparr>mgr = s', pcs = (pcs c)(r := pc')\<rparr>"
  using assms by (auto simp: sent_have_nonce_def nonces_kept_def)

lemma sent_same_pcs:
  assumes "sent_have_nonce c" "nonces_kept (mgr c) s'"
  shows "sent_have_nonce \<lparr>mgr = s', pcs = pcs c\<rparr>"
  using assms by (auto simp: sent_have_nonce_def nonces_kept_def)

lemma sent_nonce:
  "sent_have_nonce c \<Longrightarrow> pcs c r = Sending \<or> pcs c r = Settled err \<Longrightarrow> nonce (heap (mgr c) r) \<noteq> None"
  by (auto simp: sent_have_nonce_def)

lemma step_nonce_inv:
  assumes "step toChecksum c c'" "confirmed_have_nonce (mgr c)" "sent_have_nonce c"
  shows "confirmed_have_nonce (mgr c') \<and> sent_have_nonce c'"
  using assms
proof (induction rule: step.induct)
  case (start c r now s1 addr)
  from addTx_nonces [of "mgr c" r now] start show ?case
    by (simp add: sent_step)
next
  case (start_throws c r now e s1)
  from addTx_nonces [of "mgr c" r now] start_throws show ?case
    by (simp add: sent_step)
next
  case (lock c r addr)
  then show ?case by (simp add: sent_step)
next
  case (query_fails c r addr)
  then show ?case by (simp add: sent_step)
next
  case (nonce_returned c r addr n nextNetworkNonce)
  then show ?case by (simp add: sent_step)
next
  case (queue_sleeps c r addr n ms)
  then show ?case by (simp add: sent_step)
next
  case (queue_passes c r addr n ms)
  then show ?case by (simp add: sent_step)
next
  case (claim c r addr n now s1)
  from claimNonce_nonces [of "mgr c" r n addr now] claim show ?case
    by (simp add: sent_step)
next
  case (claim_throws c r addr n now e s1)
  from claimNonce_nonces [of "mgr c" r n addr now] claim_throws show ?case
    by (simp add: sent_step)
next
  case (event c r ev)
  from handler_nonces [of "mgr c" toChecksum r ev] event show ?case
    by (simp add: sent_same_pcs)
next
  case (settle c r err now s1)
  have n: "nonce (heap (mgr c) r) \<noteq> None"
    using settle by (simp add: sent_have_nonce_def)
  from finalizeTx_nonces [of "mgr c" r err now] settle n
  have "nonces_kept (mgr c) s1" "confirmed_have_nonce s1"
    by simp_all
  moreover from this n have "nonce (heap s1 r) \<noteq> None"
    by (simp add: nonces_kept_def)
  ultimately show ?case
    using settle by (simp add: sent_step)
next
  case (settle_throws c r err now e s1)
  have n: "nonce (heap (mgr c) r) \<noteq> None"
    using settle_throws by (simp add: sent_have_nonce_def)
  from finalizeTx_nonces [of "mgr c" r err now] settle_throws n show ?case
    by (simp add: sent_step)
next
  case (return c r err)
  then show ?case by (simp add: sent_step)
next
  case (confirm c r err now res s1)
  have "nonce (heap (mgr c) r) \<noteq> None"
    using confirm by (auto simp: sent_have_nonce_def)
  then have n: "nonce (heap (delete_data (mgr c) r) r) \<noteq> None"
    using retry_same(1) [of "mgr c" r] by simp
  from sendWithRetry_updateTx_nonces [of "delete_data (mgr c) r" r now] confirm n
  have "nonces_kept (delete_data (mgr c) r) s1" "confirmed_have_nonce s1"
    by (simp_all add: retry_nonces)
  with nonces_kept_trans [OF retry_nonces(1)] confirm show ?case
    by (simp add: sent_step)
next
  case (give_up c r message)
  then show ?case by (simp add: sent_step retry_nonces)
next
  case (again c r message s1 g)
  have "\<forall>t. nonce (heap s1 t) = nonce (heap (mgr c) t) \<and> status (heap s1 t) = status (heap (mgr c) t)"
    using again.hyps by (simp add: retry_same)
  from same_nonce_status [OF this] again show ?case
    by (simp add: sent_step)
qed

lemma fresh_fields:
  assumes "fresh m"
  shows "tx_id m = None" "status m = None" "nonce m = None" "tx_from m = options_from (options m)"
proof -
  let ?n = "new_TransactionObject (options_from (options m)) (tx_to m) (tx_method m)
              (methodArgs m) (options m) (txType m)"
  have eq: "m = ?n"
    using assms unfolding fresh_def .
  have "tx_id m = tx_id ?n" "status m = status ?n" "nonce m = nonce ?n" "tx_from m = tx_from ?n"
    by (rule arg_cong [OF eq])+
  then show "tx_id m = None" "status m = None" "nonce m = None" "tx_from m = options_from (options m)"
    by (simp_all add: new_TransactionObject_def)
qed

lemma initial_nonce_inv:
  assumes "initial c"
  shows "confirmed_have_nonce (mgr c) \<and> sent_have_nonce c"
proof -
  from assms have "fresh (heap (mgr c) r)" "pcs c r = Idle" for r
    by (simp_all add: initial_def)
  then show ?thesis
    by (simp add: confirmed_have_nonce_def sent_have_nonce_def fresh_fields)
qed

lemma reachable_nonce_inv:
  assumes "(step toChecksum)\<^sup>*\<^sup>* c0 c" "initial c0"
  shows "confirmed_have_nonce (mgr c) \<and> sent_have_nonce c"
  using assms
proof (induction rule: rtranclp_induct)
  case base
  then show ?case by (rule initial_nonce_inv)
next
  case (step c c')
  then show ?case using step_nonce_inv by blast
qed









text \<open>
  In every state that the manager reaches from its start by calls of \<^verbatim>\<open>submitTx\<close>
  and of the retry loop, run in any interleaving, the bound holds for an address whose
  records are stored in checksum form.
\<close>

lemma reachable_getNonce_lower_bound:
  assumes "initial c0" and "(step toChecksum)\<^sup>*\<^sup>* c0 c"
    and "stored_in_checksum_form toChecksum (mgr c) A"
  shows "max net (highestConfirmed toChecksum (mgr c) A) \<le> getNonce toChecksum (mgr c) A net"
proof -
  from reachable_nonce_inv [OF assms(2) assms(1)] have "confirmed_have_nonce (mgr c)"
    by simp
  then show ?thesis
    using assms(3) by (rule getNonce_lower_bound)
qed

text \<open>
  C2, at the input where the code departs from the claim. The caller writes the address
  in lower case, \<open>0xa\<close>, whose checksum form is \<open>0xA\<close>. \<^verbatim>\<open>submitTx\<close> stores the record
  with \<^verbatim>\<open>from\<close> as the caller wrote it; the transaction gets the nonce \<open>0\<close> and is
  confirmed. \<^verbatim>\<open>getNonce\<close> looks for the records whose \<^verbatim>\<open>from\<close> is \<open>0xA\<close>, finds none,
  and with a network count of \<open>0\<close> returns \<open>0\<close> again, for either spelling of the address,
  although the address has a confirmed record with the nonce \<open>0\<close>: the bound
  is \<open>1\<close>.
\<close>

theorem confirmed_record_in_other_case_is_missed:
  "map_option (\<lambda>(res, s). (res, tx s, status (heap s 0), tx_from (heap s 0), nonce (heap s 0),
       highestConfirmed toChecksum_A s ''0xa'', getNonce toChecksum_A s ''0xa'' 0,
       highestConfirmed toChecksum_A s ''0xA'', getNonce toChecksum_A s ''0xA'' 0))
     (submitTx toChecksum_A manager_lower 0 attempt_mined) =
   Some (Returned None, [0], Some confirmed, ''0xa'', Some 0, 1, 0, 1, 0)"
  by (simp add: manager_lower_def txMeta_lower_def toChecksum_A_def highestConfirmed_def
      confirmedNonces_def List.map_filter_def getNonce_def run_defs del: set_filter)

text \<open>
  While no object shares its id with a stored record other than itself, \<^verbatim>\<open>updateTx\<close>
  writes to its argument only.
\<close>

lemma updateTx_own:
  assumes "ids_own s"
  shows "snd (updateTx s r st now) =
           s\<lparr>heap := (heap s)(r := (heap s r)\<lparr>status := Some st, lastUpdate := Some now\<rparr>)\<rparr>"
proof (cases "findIndex (\<lambda>t. tx_id (heap s t) = tx_id (heap s r)) (tx s)")
  case None
  then show ?thesis by (simp add: updateTx_not_found)
next
  case (Some k)
  from findIndex_Some [OF Some]
  have "tx s ! k \<in> set (tx s)" "tx_id (heap s (tx s ! k)) = tx_id (heap s r)"
    by simp_all
  with assms have "tx s ! k = r"
    unfolding ids_own_def by metis
  then show ?thesis
    by (simp add: updateTx_found [OF Some])
qed


lemma updateTx_effect:
  assumes "ids_own s"
  shows "effect r s (snd (updateTx s r st now))"
    and "st \<noteq> submitted \<Longrightarrow> quiet r s (snd (updateTx s r st now))"
    and "status (heap (snd (updateTx s r st now)) r) = Some st"
    and "nonce (heap (snd (updateTx s r st now)) r) = nonce (heap s r)"
  by (simp_all add: updateTx_own [OF assms] effect_def quiet_def)














lemma lock_effect_simps [simp]:
  "effect r s (lookupMutex s' a) = effect r s s'" "effect r s (acquire s' a) = effect r s s'"
  "effect r s (releaseNonceLock s' a) = effect r s s'"
  by (simp_all add: effect_def lookupMutex_def acquire_def releaseNonceLock_def split: option.splits)

lemma effect_refl [simp]: "effect r s s"
  by (simp add: effect_def)

lemma quiet_effect: "quiet r s s' \<Longrightarrow> effect r s s'"
  by (simp add: quiet_def)






















end
